theory Spec2Isabelle
  imports Complex_Main
begin

section \<open>JavaScript strings\<close>

text \<open>
  A JavaScript string is a sequence of UTF-16 code units. The model keeps them as
  natural numbers, so that the white space class of ECMAScript (used by
  \<open>String.prototype.trim\<close> and by the regular expression class \<open>\s\<close>) is the real one
  and not its ASCII part. \<open>js\<close> writes a literal.
\<close>

type_synonym jsstring = "nat list"

definition js :: "string \<Rightarrow> jsstring" where
  "js s = map of_char s"

definition isWhiteSpace :: "nat \<Rightarrow> bool" where
  "isWhiteSpace c =
     (c = 9 \<or> c = 10 \<or> c = 11 \<or> c = 12 \<or> c = 13 \<or> c = 32 \<or> c = 160 \<or> c = 5760
      \<or> (8192 \<le> c \<and> c \<le> 8202) \<or> c = 8232 \<or> c = 8233 \<or> c = 8239 \<or> c = 8287
      \<or> c = 12288 \<or> c = 65279)"

definition trim :: "jsstring \<Rightarrow> jsstring" where
  "trim s = rev (dropWhile isWhiteSpace (rev (dropWhile isWhiteSpace s)))"

definition startsWith :: "jsstring \<Rightarrow> jsstring \<Rightarrow> bool" where
  "startsWith s p = (take (length p) s = p)"

text \<open>
  An optional string (\<open>string | undefined\<close>) is falsy when it is undefined or empty.
\<close>

fun truthy :: "jsstring option \<Rightarrow> bool" where
  "truthy None = False"
| "truthy (Some s) = (s \<noteq> [])"

section \<open>Tiered pricing\<close>

text \<open>
  \<open>PriceTier\<close>: quantities are integers, prices are rationals. \<open>max_quantity\<close> and
  \<open>discounted_unit_price\<close> may be absent (\<open>null\<close> / \<open>undefined\<close>).
\<close>

record price_tier =
  min_quantity :: int
  max_quantity :: "int option"
  unit_price :: rat
  discounted_unit_price :: "rat option"

text \<open>
  \<open>ProductDetailsPage.tsx\<close>, \<open>handleAddToCart\<close> (lines 419-421; the same expression is
  the \<open>onAddToCart\<close> callback of line 587):
  \<^verbatim>\<open>
  const unitPrice = product.has_tiered_pricing && priceTiers.length > 0
    ? priceTiers.find(tier => quantity >= tier.min_quantity)?.unit_price || product.price
    : undefined;
  \<close>
  \<open>a || b\<close> is \<open>b\<close> when \<open>a\<close> is undefined or \<open>0\<close>. \<open>None\<close> is \<open>undefined\<close>.
\<close>

definition unitPrice_find :: "bool \<Rightarrow> rat \<Rightarrow> price_tier list \<Rightarrow> int \<Rightarrow> rat option" where
  "unitPrice_find has_tiered_pricing price priceTiers quantity =
     (if has_tiered_pricing \<and> priceTiers \<noteq> []
      then (case find (\<lambda>tier. quantity \<ge> min_quantity tier) priceTiers of
              None \<Rightarrow> Some price
            | Some tier \<Rightarrow> if unit_price tier = 0 then Some price else Some (unit_price tier))
      else None)"

text \<open>
  The second product page (second document of \<open>UsersManagementPage.tsx\<close>),
  \<open>handleAddToCart\<close>, lines 475-486:
  \<^verbatim>\<open>
  let unitPrice: number | undefined = undefined;
  if (product.has_tiered_pricing && priceTiers.length > 0) {
    const sortedTiers = [...priceTiers].sort((a, b) => a.min_quantity - b.min_quantity);
    const applicableTier = sortedTiers
      .filter(tier => quantity >= tier.min_quantity &&
                      (!tier.max_quantity || quantity <= tier.max_quantity))
      .pop();
    if (applicableTier) {
      unitPrice = applicableTier.discounted_unit_price || applicableTier.unit_price;
    }
  }
  \<close>
  \<open>Array.prototype.sort\<close> is stable, as \<open>sort_key\<close> is. \<open>!tier.max_quantity\<close> holds for
  an absent bound and for the bound \<open>0\<close>.
\<close>

definition applicable :: "int \<Rightarrow> price_tier \<Rightarrow> bool" where
  "applicable quantity tier =
     (quantity \<ge> min_quantity tier \<and>
      (case max_quantity tier of None \<Rightarrow> True | Some m \<Rightarrow> m = 0 \<or> quantity \<le> m))"

definition pop :: "'a list \<Rightarrow> 'a option" where
  "pop xs = (if xs = [] then None else Some (last xs))"

definition applicableTier :: "price_tier list \<Rightarrow> int \<Rightarrow> price_tier option" where
  "applicableTier priceTiers quantity =
     pop (filter (applicable quantity) (sort_key min_quantity priceTiers))"

definition tierPrice :: "price_tier \<Rightarrow> rat" where
  "tierPrice tier =
     (case discounted_unit_price tier of
        None \<Rightarrow> unit_price tier
      | Some d \<Rightarrow> if d = 0 then unit_price tier else d)"

definition unitPrice_sorted :: "bool \<Rightarrow> price_tier list \<Rightarrow> int \<Rightarrow> rat option" where
  "unitPrice_sorted has_tiered_pricing priceTiers quantity =
     (if has_tiered_pricing \<and> priceTiers \<noteq> []
      then (case applicableTier priceTiers quantity of
              None \<Rightarrow> None
            | Some tier \<Rightarrow> Some (tierPrice tier))
      else None)"

section \<open>Product page: variant distribution and add-to-cart\<close>

text \<open>
  The projection of the remote product record that \<open>ProductDetailsPage.tsx\<close> reads.
  \<open>colors\<close> and \<open>sizes\<close> may be \<open>null\<close>.
\<close>

record product =
  price :: rat
  status :: jsstring
  has_tiered_pricing :: bool
  colors :: "jsstring list option"
  sizes :: "jsstring list option"

text \<open>
  Lines 344-354:
  \<^verbatim>\<open>
  const hasColors = product.colors && Array.isArray(product.colors) &&
                    product.colors.length > 0 &&
                    product.colors.some(color => color && color.trim().length > 0);
  \<close>
  and the same for sizes; lines 327-328 give \<open>isAvailable\<close> and \<open>hasPrice\<close>.
\<close>

definition hasEntries :: "jsstring list option \<Rightarrow> bool" where
  "hasEntries xs =
     (case xs of
        None \<Rightarrow> False
      | Some l \<Rightarrow> l \<noteq> [] \<and> list_ex (\<lambda>c. c \<noteq> [] \<and> trim c \<noteq> []) l)"

definition hasColors :: "product \<Rightarrow> bool" where
  "hasColors p = hasEntries (colors p)"

definition hasSizes :: "product \<Rightarrow> bool" where
  "hasSizes p = hasEntries (sizes p)"

definition hasOptions :: "product \<Rightarrow> bool" where
  "hasOptions p = (hasColors p \<or> hasSizes p)"

definition isAvailable :: "product \<Rightarrow> bool" where
  "isAvailable p = (status p = js ''disponivel'')"

definition hasPrice :: "product \<Rightarrow> bool" where
  "hasPrice p = (price p > 0)"

text \<open>
  A distribution entry \<open>{id, color?, size?, quantity}\<close>. The fields \<open>id\<close>, \<open>size\<close> and
  \<open>quantity\<close> carry the prefix \<open>item_\<close>.
\<close>

record distribution_item =
  item_id :: jsstring
  color :: "jsstring option"
  item_size :: "jsstring option"
  item_quantity :: int

text \<open>
  The notifications of the page (\<open>toast.error\<close>, \<open>toast.success\<close>) with the numbers
  their messages print, and the calls \<open>addToCart(product, color, size, quantity,
  unitPrice)\<close> made on the cart context, whose product argument is always the page's.
\<close>

datatype toast =
    ErrSelectColor
  | ErrSelectSize
  | ErrQuantityNotPositive
  | ErrExceedsTotal int
  | ErrDuplicate
  | ErrDistributeAll int int
  | ErrNoVariation
  | SuccessAdded int

datatype cart_call = AddToCart "jsstring option" "jsstring option" int "rat option"

text \<open>
  The state of the component (its \<open>useState\<close> cells), with the cart calls and the
  notifications it has issued so far.
\<close>

record page_state =
  quantity :: int
  selectedColor :: "jsstring option"
  selectedSize :: "jsstring option"
  distributionMode :: bool
  distributionItems :: "distribution_item list"
  newItemColor :: "jsstring option"
  newItemSize :: "jsstring option"
  newItemQuantity :: int
  cart :: "cart_call list"
  toasts :: "toast list"

text \<open>
  Lines 213-232, the effect that runs whenever the quantity or the options change:
  distribution mode is on exactly when the product has options and more than one unit
  is requested, and leaving the mode clears the list.
\<close>

definition syncDistributionMode :: "product \<Rightarrow> page_state \<Rightarrow> page_state" where
  "syncDistributionMode p s =
     (if hasOptions p \<and> quantity s > 1
      then s\<lparr>distributionMode := True\<rparr>
      else s\<lparr>distributionMode := False, distributionItems := []\<rparr>)"

text \<open>Lines 356-359.\<close>

definition distributedQuantity :: "page_state \<Rightarrow> int" where
  "distributedQuantity s =
     foldl (\<lambda>sum item. sum + item_quantity item) 0 (distributionItems s)"

definition remainingQuantity :: "page_state \<Rightarrow> int" where
  "remainingQuantity s = quantity s - distributedQuantity s"

definition isDistributionComplete :: "page_state \<Rightarrow> bool" where
  "isDistributionComplete s = (distributedQuantity s = quantity s)"

definition isDistributionOverflow :: "page_state \<Rightarrow> bool" where
  "isDistributionOverflow s = (distributedQuantity s > quantity s)"

text \<open>
  Lines 361-399. The identifier \<open>`${Date.now()}-${Math.random()}`\<close> of the new entry
  is the argument \<open>fresh\<close>.
\<close>

definition addDistributionItem :: "product \<Rightarrow> jsstring \<Rightarrow> page_state \<Rightarrow> page_state" where
  "addDistributionItem p fresh s =
     (if hasColors p \<and> \<not> truthy (newItemColor s)
      then s\<lparr>toasts := toasts s @ [ErrSelectColor]\<rparr>
      else if hasSizes p \<and> \<not> truthy (newItemSize s)
      then s\<lparr>toasts := toasts s @ [ErrSelectSize]\<rparr>
      else if newItemQuantity s \<le> 0
      then s\<lparr>toasts := toasts s @ [ErrQuantityNotPositive]\<rparr>
      else if distributedQuantity s + newItemQuantity s > quantity s
      then s\<lparr>toasts := toasts s @ [ErrExceedsTotal (remainingQuantity s)]\<rparr>
      else if list_ex (\<lambda>item. color item = newItemColor s \<and> item_size item = newItemSize s)
                (distributionItems s)
      then s\<lparr>toasts := toasts s @ [ErrDuplicate]\<rparr>
      else s\<lparr>distributionItems := distributionItems s @
                 [\<lparr>item_id = fresh,
                   color = (if hasColors p then newItemColor s else None),
                   item_size = (if hasSizes p then newItemSize s else None),
                   item_quantity = newItemQuantity s\<rparr>],
               newItemColor := None,
               newItemSize := None,
               newItemQuantity := 1\<rparr>)"

text \<open>Lines 401-414.\<close>

definition removeDistributionItem :: "jsstring \<Rightarrow> page_state \<Rightarrow> page_state" where
  "removeDistributionItem i s =
     s\<lparr>distributionItems := filter (\<lambda>item. item_id item \<noteq> i) (distributionItems s)\<rparr>"

definition updateDistributionItemQuantity :: "jsstring \<Rightarrow> int \<Rightarrow> page_state \<Rightarrow> page_state" where
  "updateDistributionItemQuantity i newQty s =
     (if newQty \<le> 0 then removeDistributionItem i s
      else s\<lparr>distributionItems :=
               map (\<lambda>item. if item_id item = i then item\<lparr>item_quantity := newQty\<rparr> else item)
                 (distributionItems s)\<rparr>)"

text \<open>
  Lines 416-448. The four setters at the end of a successful call are \<open>resetAfterAdd\<close>.
\<close>

definition resetAfterAdd :: "product \<Rightarrow> price_tier list \<Rightarrow> page_state \<Rightarrow> page_state" where
  "resetAfterAdd p priceTiers s =
     s\<lparr>quantity := (if has_tiered_pricing p \<and> priceTiers \<noteq> []
                     then min_quantity (hd priceTiers) else 1),
       distributionItems := [],
       selectedColor := None,
       selectedSize := None\<rparr>"

definition handleAddToCart :: "product \<Rightarrow> price_tier list \<Rightarrow> page_state \<Rightarrow> page_state" where
  "handleAddToCart p priceTiers s =
     (if \<not> isAvailable p \<or> \<not> hasPrice p then s
      else
        let unitPrice = unitPrice_find (has_tiered_pricing p) (price p) priceTiers (quantity s)
        in if distributionMode s \<and> hasOptions p
           then if \<not> isDistributionComplete s
                then s\<lparr>toasts := toasts s @ [ErrDistributeAll (quantity s) (remainingQuantity s)]\<rparr>
                else if distributionItems s = []
                then s\<lparr>toasts := toasts s @ [ErrNoVariation]\<rparr>
                else resetAfterAdd p priceTiers
                       (s\<lparr>cart := cart s @
                                 map (\<lambda>item. AddToCart (color item) (item_size item)
                                                (item_quantity item) unitPrice)
                                   (distributionItems s),
                          toasts := toasts s @ [SuccessAdded (quantity s)]\<rparr>)
           else resetAfterAdd p priceTiers
                  (s\<lparr>cart := cart s @ [AddToCart None None (quantity s) unitPrice],
                     toasts := toasts s @ [SuccessAdded (quantity s)]\<rparr>))"

text \<open>
  A user's action on the distribution list: filling the three inputs and pressing
  "add", removing an entry, or changing the quantity of an entry.
\<close>

datatype dist_op =
    AddItem "jsstring option" "jsstring option" int jsstring
  | RemoveItem jsstring
  | UpdateQuantity jsstring int

fun apply_op :: "product \<Rightarrow> page_state \<Rightarrow> dist_op \<Rightarrow> page_state" where
  "apply_op p s (AddItem c z q fresh) =
     addDistributionItem p fresh (s\<lparr>newItemColor := c, newItemSize := z, newItemQuantity := q\<rparr>)"
| "apply_op p s (RemoveItem i) = removeDistributionItem i s"
| "apply_op p s (UpdateQuantity i n) = updateDistributionItemQuantity i n s"

definition run_ops :: "product \<Rightarrow> page_state \<Rightarrow> dist_op list \<Rightarrow> page_state" where
  "run_ops p s ops = foldl (apply_op p) s ops"

text \<open>
  An update raises when it gives some entry a larger quantity than the entry has;
  \<open>never_raises\<close> says that no step of a run does.
\<close>

fun raises :: "page_state \<Rightarrow> dist_op \<Rightarrow> bool" where
  "raises s (UpdateQuantity i n) =
     list_ex (\<lambda>item. item_id item = i \<and> item_quantity item < n) (distributionItems s)"
| "raises s (AddItem c z q fresh) = False"
| "raises s (RemoveItem i) = False"

fun never_raises :: "product \<Rightarrow> page_state \<Rightarrow> dist_op list \<Rightarrow> bool" where
  "never_raises p s [] = True"
| "never_raises p s (x # xs) = (\<not> raises s x \<and> never_raises p (apply_op p s x) xs)"

text \<open>The page as it is first rendered with a requested quantity.\<close>

definition initial_page :: "int \<Rightarrow> page_state" where
  "initial_page q =
     \<lparr>quantity = q, selectedColor = None, selectedSize = None, distributionMode = False,
      distributionItems = [], newItemColor = None, newItemSize = None, newItemQuantity = 1,
      cart = [], toasts = []\<rparr>"

section \<open>YouTube links\<close>

text \<open>
  \<open>youtubeUtils\<close>, \<open>extractYouTubeVideoId\<close>. The three regular expressions are
  \<^verbatim>\<open>
  /(?:youtube\.com\/watch\?v=|youtu\.be\/|youtube\.com\/embed\/)([^&\s?]+)/
  /youtube\.com\/shorts\/([^&\s?]+)/
  /youtube\.com\/v\/([^&\s?]+)/
  \<close>
  each a choice of literal prefixes followed by one greedy group, with nothing after
  the group. \<open>captureChar\<close> is the class \<open>[^&\s?]\<close> and \<open>wordChar\<close> the class
  \<open>[a-zA-Z0-9_-]\<close>.
\<close>

definition captureChar :: "nat \<Rightarrow> bool" where
  "captureChar c = (c \<noteq> 38 \<and> c \<noteq> 63 \<and> \<not> isWhiteSpace c)"

definition wordChar :: "nat \<Rightarrow> bool" where
  "wordChar c =
     ((97 \<le> c \<and> c \<le> 122) \<or> (65 \<le> c \<and> c \<le> 90) \<or> (48 \<le> c \<and> c \<le> 57) \<or> c = 95 \<or> c = 45)"

text \<open>
  \<open>matchAt alts s\<close> tries the alternatives in their order at the start of \<open>s\<close>: a
  prefix matches when the group after it takes at least one character, and the group
  takes all it can. \<open>firstMatch\<close> is \<open>String.prototype.match\<close> for a pattern without
  the global flag: the match at the leftmost start position, and its group.
\<close>

fun matchAt :: "jsstring list \<Rightarrow> jsstring \<Rightarrow> jsstring option" where
  "matchAt [] s = None"
| "matchAt (p # ps) s =
     (if startsWith s p \<and> takeWhile captureChar (drop (length p) s) \<noteq> []
      then Some (takeWhile captureChar (drop (length p) s))
      else matchAt ps s)"

fun firstMatch :: "jsstring list \<Rightarrow> jsstring \<Rightarrow> jsstring option" where
  "firstMatch alts [] = matchAt alts []"
| "firstMatch alts (c # cs) =
     (case matchAt alts (c # cs) of
        Some g \<Rightarrow> Some g
      | None \<Rightarrow> firstMatch alts cs)"

definition patterns :: "jsstring list list" where
  "patterns =
     [[js ''youtube.com/watch?v='', js ''youtu.be/'', js ''youtube.com/embed/''],
      [js ''youtube.com/shorts/''],
      [js ''youtube.com/v/'']]"

text \<open>The loop \<open>for (const pattern of patterns)\<close>, returning at the first match.\<close>

fun firstPattern :: "jsstring list list \<Rightarrow> jsstring \<Rightarrow> jsstring option" where
  "firstPattern [] url = None"
| "firstPattern (pattern # rest) url =
     (case firstMatch pattern url of
        Some g \<Rightarrow> Some g
      | None \<Rightarrow> firstPattern rest url)"

text \<open>\<open>/^[a-zA-Z0-9_-]{11}$/.test(s)\<close>\<close>

definition bareId :: "jsstring \<Rightarrow> bool" where
  "bareId s = (length s = 11 \<and> list_all wordChar s)"

definition extractYouTubeVideoId :: "jsstring \<Rightarrow> jsstring option" where
  "extractYouTubeVideoId url =
     (if url = [] then None
      else case firstPattern patterns url of
             Some g \<Rightarrow> Some g
           | None \<Rightarrow> if bareId (trim url) then Some (trim url) else None)"

definition getYouTubeEmbedUrl :: "jsstring \<Rightarrow> jsstring" where
  "getYouTubeEmbedUrl videoId = js ''https://www.youtube.com/embed/'' @ videoId"

definition isValidYouTubeUrl :: "jsstring \<Rightarrow> bool" where
  "isValidYouTubeUrl url = (extractYouTubeVideoId url \<noteq> None)"

section \<open>Media manager\<close>

text \<open>
  \<open>ProductImageManager\<close> (\<open>part_000\<close>). A browser \<open>File\<close> is its name, its size in bytes
  and its MIME type; a \<open>Blob\<close> its size and type. The fields \<open>id\<close>, \<open>name\<close>, \<open>size\<close>
  and \<open>type\<close> carry a prefix,
  and the field \<open>file\<close> of a media item is \<open>media_file\<close>.
\<close>

record browser_file =
  file_name :: jsstring
  file_size :: nat
  file_type :: jsstring

record blob =
  blob_size :: nat
  blob_type :: jsstring

datatype media_type = Image | Video

record media_item =
  media_id :: jsstring
  url :: jsstring
  media_file :: "browser_file option"
  isFeatured :: bool
  mediaType :: media_type
  videoId :: "jsstring option"

datatype media_toast =
    ErrLimitReached
  | ErrTooLarge jsstring rat
  | ErrNotImage jsstring
  | ErrNoLink
  | ErrInvalidLink
  | ErrNoVideoId
  | SuccessRecropped
  | SuccessImagesAdded nat
  | SuccessVideoAdded

text \<open>
  The state: the controlled property \<open>images\<close> (every \<open>onChange(xs)\<close> of the component
  makes \<open>xs\<close> the next \<open>images\<close>), the properties \<open>maxImages\<close> and \<open>maxFileSize\<close>, the
  \<open>useState\<close> cells and the notifications issued.
\<close>

record manager_state =
  images :: "media_item list"
  maxImages :: int
  maxFileSize :: rat
  showCropper :: bool
  selectedFile :: "browser_file option"
  pendingFiles :: "browser_file list"
  currentFileIndex :: nat
  imageToRecrop :: "media_item option"
  showVideoDialog :: bool
  youtubeUrl :: jsstring
  media_toasts :: "media_toast list"

text \<open>
  \<open>Array.prototype.slice(0, end)\<close>: a negative \<open>end\<close> counts from the end of the array.
\<close>

definition slice0 :: "'a list \<Rightarrow> int \<Rightarrow> 'a list" where
  "slice0 xs e = (if e < 0 then take (nat (int (length xs) + e)) xs else take (nat e) xs)"

text \<open>Reading \<open>xs[i]\<close>: \<open>undefined\<close> out of range.\<close>

definition at_index :: "'a list \<Rightarrow> nat \<Rightarrow> 'a option" where
  "at_index xs i = (if i < length xs then Some (xs ! i) else None)"

text \<open>
  Lines 42-71. The callback of the filter (lines 53-63) is \<open>validFile\<close>, and
  \<open>rejection\<close> the notification it issues for a file it refuses.
\<close>

definition tooLarge :: "rat \<Rightarrow> browser_file \<Rightarrow> bool" where
  "tooLarge limit f = (of_nat (file_size f) > limit * 1024 * 1024)"

definition validFile :: "rat \<Rightarrow> browser_file \<Rightarrow> bool" where
  "validFile limit f = (\<not> tooLarge limit f \<and> startsWith (file_type f) (js ''image/''))"

definition rejection :: "rat \<Rightarrow> browser_file \<Rightarrow> media_toast list" where
  "rejection limit f =
     (if tooLarge limit f then [ErrTooLarge (file_name f) limit]
      else if \<not> startsWith (file_type f) (js ''image/'') then [ErrNotImage (file_name f)]
      else [])"

definition remainingSlots :: "manager_state \<Rightarrow> int" where
  "remainingSlots s = maxImages s - int (length (images s))"

definition filesToAdd :: "manager_state \<Rightarrow> browser_file list \<Rightarrow> browser_file list" where
  "filesToAdd s files = slice0 files (remainingSlots s)"

definition validFiles :: "manager_state \<Rightarrow> browser_file list \<Rightarrow> browser_file list" where
  "validFiles s files = filter (validFile (maxFileSize s)) (filesToAdd s files)"

definition handleFileSelect :: "browser_file list option \<Rightarrow> manager_state \<Rightarrow> manager_state" where
  "handleFileSelect files s =
     (case files of
        None \<Rightarrow> s
      | Some fs \<Rightarrow>
          if filesToAdd s fs = []
          then s\<lparr>media_toasts := media_toasts s @ [ErrLimitReached]\<rparr>
          else
            let s1 = s\<lparr>media_toasts :=
                         media_toasts s @ concat (map (rejection (maxFileSize s)) (filesToAdd s fs))\<rparr>
            in if validFiles s fs \<noteq> []
               then s1\<lparr>pendingFiles := validFiles s fs,
                       currentFileIndex := 0,
                       selectedFile := at_index (validFiles s fs) 0,
                       showCropper := True\<rparr>
               else s1)"

text \<open>Decimal digits of a number, as a template literal prints it.\<close>

function showNat :: "nat \<Rightarrow> jsstring" where
  "showNat n = (if n < 10 then [48 + n] else showNat (n div 10) @ [48 + n mod 10])"
  by pat_completeness auto
termination
  by (relation "measure (\<lambda>n. n)") auto

declare showNat.simps [simp del]

text \<open>
  Lines 73-119. \<open>now\<close> is \<open>Date.now()\<close> and \<open>objectUrl\<close> what \<open>URL.createObjectURL\<close>
  returns for the cropped file. When an image is cropped again, the code asks for one
  object URL per entry that carries the identifier of the image; the model gives
  \<open>objectUrl\<close> to each of them, which is the same when identifiers are distinct.
\<close>

definition handleCropComplete :: "nat \<Rightarrow> jsstring \<Rightarrow> blob \<Rightarrow> manager_state \<Rightarrow> manager_state" where
  "handleCropComplete now objectUrl croppedBlob s =
     (case imageToRecrop s of
        Some target \<Rightarrow>
          let croppedFile = \<lparr>file_name = js ''recropped-'' @ showNat now @ js ''.jpg'',
                              file_size = blob_size croppedBlob,
                              file_type = js ''image/jpeg''\<rparr>
          in s\<lparr>images := map (\<lambda>img. if media_id img = media_id target
                                     then img\<lparr>url := objectUrl, media_file := Some croppedFile\<rparr>
                                     else img) (images s),
               showCropper := False,
               imageToRecrop := None,
               media_toasts := media_toasts s @ [SuccessRecropped]\<rparr>
      | None \<Rightarrow>
          (case selectedFile s of
             None \<Rightarrow> s
           | Some sel \<Rightarrow>
               let croppedFile = \<lparr>file_name = file_name sel,
                                   file_size = blob_size croppedBlob,
                                   file_type = js ''image/jpeg''\<rparr>;
                   newImage = \<lparr>media_id = js ''new-'' @ showNat now @ js ''-''
                                            @ showNat (currentFileIndex s),
                                url = objectUrl,
                                media_file = Some croppedFile,
                                isFeatured = (images s = [] \<and> currentFileIndex s = 0),
                                mediaType = Image,
                                videoId = None\<rparr>;
                   s1 = s\<lparr>images := images s @ [newImage]\<rparr>
               in if int (currentFileIndex s) < int (length (pendingFiles s)) - 1
                  then s1\<lparr>currentFileIndex := currentFileIndex s + 1,
                          selectedFile := at_index (pendingFiles s) (currentFileIndex s + 1)\<rparr>
                  else s1\<lparr>showCropper := False,
                          selectedFile := None,
                          pendingFiles := [],
                          currentFileIndex := 0,
                          media_toasts := media_toasts s
                                          @ [SuccessImagesAdded (length (pendingFiles s))]\<rparr>))"

text \<open>Lines 135-164.\<close>

definition handleAddVideo :: "nat \<Rightarrow> manager_state \<Rightarrow> manager_state" where
  "handleAddVideo now s =
     (if trim (youtubeUrl s) = []
      then s\<lparr>media_toasts := media_toasts s @ [ErrNoLink]\<rparr>
      else if \<not> isValidYouTubeUrl (youtubeUrl s)
      then s\<lparr>media_toasts := media_toasts s @ [ErrInvalidLink]\<rparr>
      else case extractYouTubeVideoId (youtubeUrl s) of
             None \<Rightarrow> s\<lparr>media_toasts := media_toasts s @ [ErrNoVideoId]\<rparr>
           | Some v \<Rightarrow>
               if v = [] then s\<lparr>media_toasts := media_toasts s @ [ErrNoVideoId]\<rparr>
               else s\<lparr>images := images s @
                          [\<lparr>media_id = js ''video-'' @ showNat now,
                            url = getYouTubeEmbedUrl v,
                            media_file = None,
                            isFeatured = (images s = []),
                            mediaType = Video,
                            videoId = Some v\<rparr>],
                       youtubeUrl := [],
                       showVideoDialog := False,
                       media_toasts := media_toasts s @ [SuccessVideoAdded]\<rparr>)"

text \<open>
  Lines 181-198. \<open>remainingImages[0].isFeatured = true\<close> writes to the first object of
  the filtered array; the list handed to \<open>onChange\<close> is that array.
\<close>

definition setFeaturedImage :: "jsstring \<Rightarrow> media_item list \<Rightarrow> media_item list" where
  "setFeaturedImage imageId imgs = map (\<lambda>img. img\<lparr>isFeatured := (media_id img = imageId)\<rparr>) imgs"

definition removeImage :: "jsstring \<Rightarrow> media_item list \<Rightarrow> media_item list" where
  "removeImage imageId imgs =
     (let imageToRemove = find (\<lambda>img. media_id img = imageId) imgs;
          remainingImages = filter (\<lambda>img. media_id img \<noteq> imageId) imgs
      in if (case imageToRemove of None \<Rightarrow> False | Some r \<Rightarrow> isFeatured r) \<and> remainingImages \<noteq> []
         then (hd remainingImages)\<lparr>isFeatured := True\<rparr> # tl remainingImages
         else remainingImages)"

text \<open>
  The crop dialog completing once for each element of a list of
  (time, object URL, cropped blob).
\<close>

fun crop_all :: "(nat \<times> jsstring \<times> blob) list \<Rightarrow> manager_state \<Rightarrow> manager_state" where
  "crop_all [] s = s"
| "crop_all ((now, objectUrl, b) # rest) s = crop_all rest (handleCropComplete now objectUrl b s)"

section \<open>Users management\<close>

text \<open>The fields of the remote user record that the page reads.\<close>

record user =
  user_id :: jsstring
  name :: jsstring
  email :: jsstring
  slug :: "jsstring option"
  role :: jsstring
  is_blocked :: bool
  plan_status :: jsstring

text \<open>\<open>String.prototype.includes\<close>: the second string occurs in the first.\<close>

fun includes_str :: "jsstring \<Rightarrow> jsstring \<Rightarrow> bool" where
  "includes_str [] t = (t = [])"
| "includes_str (c # cs) t = (startsWith (c # cs) t \<or> includes_str cs t)"

text \<open>
  What \<open>String.prototype.toLowerCase\<close> does on ASCII text: the letters A-Z move to a-z
  and every other code unit stays. The page is modelled for any \<open>toLowerCase\<close>;
  \<open>lowerAscii\<close> only serves as an example of one, on ASCII data.
\<close>

definition lowerAscii :: "jsstring \<Rightarrow> jsstring" where
  "lowerAscii s = map (\<lambda>c. if 65 \<le> c \<and> c \<le> 90 then c + 32 else c) s"

text \<open>
  Lines 61-93, the effect that computes \<open>displayedUsers\<close>. \<open>toLowerCase\<close> is the
  built-in \<open>String.prototype.toLowerCase\<close>, taken as a parameter.
\<close>

definition matchesSearch :: "(jsstring \<Rightarrow> jsstring) \<Rightarrow> jsstring \<Rightarrow> user \<Rightarrow> bool" where
  "matchesSearch toLowerCase searchTerm u =
     (includes_str (toLowerCase (name u)) (toLowerCase searchTerm) \<or>
      includes_str (toLowerCase (email u)) (toLowerCase searchTerm) \<or>
      (case slug u of
         None \<Rightarrow> False
       | Some sl \<Rightarrow> sl \<noteq> [] \<and> includes_str (toLowerCase sl) (toLowerCase searchTerm)))"

definition displayedUsers ::
  "(jsstring \<Rightarrow> jsstring) \<Rightarrow> user list \<Rightarrow> jsstring \<Rightarrow> jsstring \<Rightarrow> jsstring \<Rightarrow> jsstring \<Rightarrow> user list" where
  "displayedUsers toLowerCase users searchTerm roleFilter statusFilter planFilter =
     (let filtered1 = (if searchTerm \<noteq> []
                       then filter (matchesSearch toLowerCase searchTerm) users
                       else users);
          filtered2 = (if roleFilter \<noteq> js ''all''
                       then filter (\<lambda>u. role u = roleFilter) filtered1
                       else filtered1);
          filtered3 = (if statusFilter \<noteq> js ''all''
                       then if statusFilter = js ''active''
                            then filter (\<lambda>u. \<not> is_blocked u) filtered2
                            else if statusFilter = js ''blocked''
                            then filter (\<lambda>u. is_blocked u) filtered2
                            else filtered2
                       else filtered2)
      in if planFilter \<noteq> js ''all''
         then filter (\<lambda>u. plan_status u = planFilter) filtered3
         else filtered3)"

text \<open>
  Lines 131-156. The remote update either succeeds, returns an error object (which
  the handler throws) or throws itself; the last two end in the \<open>catch\<close> block.
\<close>

datatype remote_result = RemoteOk | RemoteError | RemoteThrows

datatype admin_toast = SuccessBlocked | SuccessUnblocked | ErrToggle

definition handleToggleBlock ::
  "remote_result \<Rightarrow> jsstring \<Rightarrow> bool \<Rightarrow> user list \<Rightarrow> user list \<times> admin_toast" where
  "handleToggleBlock remote userId currentBlocked users =
     (case remote of
        RemoteOk \<Rightarrow>
          (map (\<lambda>u. if user_id u = userId then u\<lparr>is_blocked := \<not> currentBlocked\<rparr> else u) users,
           if currentBlocked then SuccessUnblocked else SuccessBlocked)
      | RemoteError \<Rightarrow> (users, ErrToggle)
      | RemoteThrows \<Rightarrow> (users, ErrToggle))"

section \<open>Vocabulary of the properties\<close>

text \<open>
  The range of a tier, as the specification words it: \<open>[min_quantity, max_quantity]\<close>,
  unbounded above when \<open>max_quantity\<close> is absent.
\<close>

definition in_range :: "int \<Rightarrow> price_tier \<Rightarrow> bool" where
  "in_range q tier =
     (min_quantity tier \<le> q \<and> (case max_quantity tier of None \<Rightarrow> True | Some m \<Rightarrow> q \<le> m))"

text \<open>
  A handler of the product page rejects when all it does is issue an error
  notification: every cell of the state, the cart and the distribution list among
  them, is left as it was.
\<close>

definition is_error :: "toast \<Rightarrow> bool" where
  "is_error t = (case t of SuccessAdded n \<Rightarrow> False | _ \<Rightarrow> True)"

definition rejected :: "page_state \<Rightarrow> page_state \<Rightarrow> bool" where
  "rejected s s' = (\<exists>e. is_error e \<and> s' = s\<lparr>toasts := toasts s @ [e]\<rparr>)"




text \<open>
  The invariant of the distribution list: every entry has a positive quantity and the
  quantities sum to at most the requested total.
\<close>

definition positive_items :: "page_state \<Rightarrow> bool" where
  "positive_items s = list_all (\<lambda>item. item_quantity item > 0) (distributionItems s)"

definition within_total :: "page_state \<Rightarrow> bool" where
  "within_total s = (positive_items s \<and> distributedQuantity s \<le> quantity s)"

text \<open>
  The featured flag of a media list: at most one entry carries it; exactly one, the
  first, carries it.
\<close>

definition at_most_one_featured :: "media_item list \<Rightarrow> bool" where
  "at_most_one_featured imgs = (length (filter isFeatured imgs) \<le> 1)"

definition only_first_featured :: "media_item list \<Rightarrow> bool" where
  "only_first_featured imgs =
     (case imgs of [] \<Rightarrow> False
      | m # ms \<Rightarrow> isFeatured m \<and> list_all (\<lambda>img. \<not> isFeatured img) ms)"

text \<open>
  \<open>t\<close> is a substring of \<open>s\<close>; \<open>t\<close> is a substring of \<open>s\<close> when case is ignored; and
  the users that the four filters of the users page admit: the search term is empty
  or a case-insensitive substring of the name, of the email or of a slug that is
  present; the role filter is \<open>all\<close> or the user's role; the status filter \<open>active\<close>
  asks for a user who is not blocked and \<open>blocked\<close> for one who is; the plan filter is
  \<open>all\<close> or the user's plan status.
\<close>

definition occurs_in :: "jsstring \<Rightarrow> jsstring \<Rightarrow> bool" where
  "occurs_in t s = (\<exists>pre post. s = pre @ t @ post)"

definition ci_substring :: "(jsstring \<Rightarrow> jsstring) \<Rightarrow> jsstring \<Rightarrow> jsstring \<Rightarrow> bool" where
  "ci_substring toLowerCase t s = occurs_in (toLowerCase t) (toLowerCase s)"

definition admitted ::
  "(jsstring \<Rightarrow> jsstring) \<Rightarrow> jsstring \<Rightarrow> jsstring \<Rightarrow> jsstring \<Rightarrow> jsstring \<Rightarrow> user \<Rightarrow> bool" where
  "admitted toLowerCase searchTerm roleFilter statusFilter planFilter u =
     ((searchTerm = []
        \<or> ci_substring toLowerCase searchTerm (name u)
        \<or> ci_substring toLowerCase searchTerm (email u)
        \<or> (\<exists>sl. slug u = Some sl \<and> sl \<noteq> [] \<and> ci_substring toLowerCase searchTerm sl))
      \<and> (roleFilter = js ''all'' \<or> role u = roleFilter)
      \<and> (statusFilter = js ''active'' \<longrightarrow> \<not> is_blocked u)
      \<and> (statusFilter = js ''blocked'' \<longrightarrow> is_blocked u)
      \<and> (planFilter = js ''all'' \<or> plan_status u = planFilter))"

text \<open>
  The media manager is idle when no file is pending, none is selected and no image is
  being cropped again. \<open>source_name\<close> is the name of the file a media entry was cut
  from: \<open>handleCropComplete\<close> gives the cropped file the name of the selected file.
\<close>

definition idle :: "manager_state \<Rightarrow> bool" where
  "idle s = (pendingFiles s = [] \<and> selectedFile s = None \<and> imageToRecrop s = None)"

definition source_name :: "media_item \<Rightarrow> jsstring option" where
  "source_name m = map_option file_name (media_file m)"




section \<open>Tier selection\<close>

lemma sorted_map_last_greatest:
  "sorted (map f xs) \<Longrightarrow> x \<in> set xs \<Longrightarrow> f x \<le> f (last xs)"
  by (induction xs) (auto split: if_splits)

text \<open>
  The second page selects as the specification says: a tier that applies to the
  quantity and has the greatest \<open>min_quantity\<close> among those that do, and none exactly
  when no tier applies.
\<close>

lemma applicableTier_Some:
  assumes "applicableTier ts q = Some t"
  shows "t \<in> set ts" and "applicable q t"
    and "\<And>t'. t' \<in> set ts \<Longrightarrow> applicable q t' \<Longrightarrow> min_quantity t' \<le> min_quantity t"
proof -
  let ?xs = "filter (applicable q) (sort_key min_quantity ts)"
  from assms have ne: "?xs \<noteq> []" and t: "t = last ?xs"
    by (auto simp: applicableTier_def pop_def split: if_splits)
  from ne t have mem: "t \<in> set ?xs" using last_in_set by blast
  then show "t \<in> set ts" and "applicable q t" by auto
  have srt: "sorted (map min_quantity ?xs)"
    by (simp add: sorted_filter)
  fix t' assume "t' \<in> set ts" "applicable q t'"
  then have "t' \<in> set ?xs" by simp
  with srt show "min_quantity t' \<le> min_quantity t"
    unfolding t by (rule sorted_map_last_greatest)
qed

lemma applicableTier_None:
  "applicableTier ts q = None \<longleftrightarrow> (\<forall>t\<in>set ts. \<not> applicable q t)"
  by (auto simp: applicableTier_def pop_def filter_empty_conv)

lemma applicable_in_range:
  "max_quantity t \<noteq> Some 0 \<Longrightarrow> applicable q t = in_range q t"
  by (auto simp: applicable_def in_range_def split: option.splits)

lemma unitPrice_sorted_greatest_tier:
  assumes "unitPrice_sorted True ts q = Some v"
  shows "\<exists>t\<in>set ts. applicable q t \<and> v = tierPrice t \<and>
           (\<forall>t'\<in>set ts. applicable q t' \<longrightarrow> min_quantity t' \<le> min_quantity t)"
proof -
  from assms obtain t where t: "applicableTier ts q = Some t" and v: "v = tierPrice t"
    by (auto simp: unitPrice_sorted_def split: if_splits option.splits)
  from applicableTier_Some[OF t] v show ?thesis by blast
qed

text \<open>
  Claim C1 (tiered price resolution: the price is that of the tier with the largest
  \<open>min_quantity\<close> among the tiers whose range contains the quantity). With the tiers
  1-9 at 100 and 10 and more at 80, only the second tier's range contains the
  quantity 10, so the resolved price is to be 80. \<open>handleAddToCart\<close> of
  \<open>ProductDetailsPage.tsx\<close> takes the first tier of the list whose \<open>min_quantity\<close> is not
  above the quantity, without reading \<open>max_quantity\<close>, and resolves 100.
\<close>

theorem unitPrice_find_takes_first_tier:
  "filter (in_range 10)
     [\<lparr>min_quantity = 1, max_quantity = Some 9, unit_price = 100, discounted_unit_price = None\<rparr>,
      \<lparr>min_quantity = 10, max_quantity = None, unit_price = 80, discounted_unit_price = None\<rparr>]
   = [\<lparr>min_quantity = 10, max_quantity = None, unit_price = 80, discounted_unit_price = None\<rparr>]
   \<and> unitPrice_find True 100
     [\<lparr>min_quantity = 1, max_quantity = Some 9, unit_price = 100, discounted_unit_price = None\<rparr>,
      \<lparr>min_quantity = 10, max_quantity = None, unit_price = 80, discounted_unit_price = None\<rparr>] 10
   = Some 100"
  by (simp add: in_range_def unitPrice_find_def)

text \<open>
  Claim C5 (the two tier selections compute the same unit price). With the tiers 1-9
  at 10, 10-19 at 9 and 20 and more at 8, and the quantity 25, the selection of
  \<open>ProductDetailsPage.tsx\<close> gives 10 and the selection of the second page gives 8.
\<close>

theorem unitPrice_find_differs_from_sorted:
  "unitPrice_find True 10
     [\<lparr>min_quantity = 1, max_quantity = Some 9, unit_price = 10, discounted_unit_price = None\<rparr>,
      \<lparr>min_quantity = 10, max_quantity = Some 19, unit_price = 9, discounted_unit_price = None\<rparr>,
      \<lparr>min_quantity = 20, max_quantity = None, unit_price = 8, discounted_unit_price = None\<rparr>] 25
   = Some 10 \<and>
   unitPrice_sorted True
     [\<lparr>min_quantity = 1, max_quantity = Some 9, unit_price = 10, discounted_unit_price = None\<rparr>,
      \<lparr>min_quantity = 10, max_quantity = Some 19, unit_price = 9, discounted_unit_price = None\<rparr>,
      \<lparr>min_quantity = 20, max_quantity = None, unit_price = 8, discounted_unit_price = None\<rparr>] 25
   = Some 8"
  by (simp add: unitPrice_find_def unitPrice_sorted_def applicableTier_def applicable_def
      pop_def tierPrice_def)

section \<open>Variant distribution\<close>

lemma foldl_add: "foldl (\<lambda>sum item. sum + f item) a xs = a + sum_list (map f xs)" for a :: int
  by (induction xs arbitrary: a) auto

lemma distributedQuantity_sum:
  "distributedQuantity s = sum_list (map item_quantity (distributionItems s))"
  by (simp add: distributedQuantity_def foldl_add)

lemma rejectedI: "is_error e \<Longrightarrow> rejected s (s\<lparr>toasts := toasts s @ [e]\<rparr>)"
  unfolding rejected_def by blast

lemma rejected_unchanged:
  "rejected s s' \<Longrightarrow>
     distributionItems s' = distributionItems s \<and> cart s' = cart s \<and> quantity s' = quantity s"
  by (auto simp: rejected_def)

subsection \<open>The sum of the distribution\<close>

lemma sum_filter_le:
  "list_all (\<lambda>item. item_quantity item > 0) xs \<Longrightarrow>
   sum_list (map item_quantity (filter P xs)) \<le> sum_list (map item_quantity xs)"
  by (induction xs) auto

lemma sum_update_le:
  "\<not> list_ex (\<lambda>item. item_id item = i \<and> item_quantity item < n) xs \<Longrightarrow>
   sum_list (map item_quantity
      (map (\<lambda>item. if item_id item = i then item\<lparr>item_quantity := n\<rparr> else item) xs))
   \<le> sum_list (map item_quantity xs)"
  by (induction xs) auto

lemma within_total_add:
  "within_total s \<Longrightarrow>
   within_total (addDistributionItem p fresh
                   (s\<lparr>newItemColor := c, newItemSize := z, newItemQuantity := q\<rparr>))"
  by (simp add: within_total_def positive_items_def addDistributionItem_def
      distributedQuantity_sum)

lemma within_total_remove:
  "within_total s \<Longrightarrow> within_total (removeDistributionItem i s)"
  using sum_filter_le[of "distributionItems s" "\<lambda>item. item_id item \<noteq> i"]
  by (simp add: within_total_def positive_items_def removeDistributionItem_def
      distributedQuantity_sum list_all_iff)

lemma within_total_update:
  assumes "within_total s" "\<not> raises s (UpdateQuantity i n)"
  shows "within_total (updateDistributionItemQuantity i n s)"
proof (cases "n \<le> 0")
  case True
  with assms(1) show ?thesis
    by (simp add: updateDistributionItemQuantity_def within_total_remove)
next
  case False
  with assms sum_update_le[of i n "distributionItems s"] show ?thesis
    by (auto simp: within_total_def positive_items_def updateDistributionItemQuantity_def
        distributedQuantity_sum list_all_iff)
qed

lemma within_total_step:
  "within_total s \<Longrightarrow> \<not> raises s x \<Longrightarrow> within_total (apply_op p s x)"
  by (cases x) (simp_all add: within_total_add within_total_remove within_total_update)

lemma quantity_step: "quantity (apply_op p s x) = quantity s"
  by (cases x) (simp_all add: addDistributionItem_def removeDistributionItem_def
      updateDistributionItemQuantity_def)

lemma within_total_run:
  "within_total s \<Longrightarrow> never_raises p s ops \<Longrightarrow> within_total (run_ops p s ops)"
  unfolding run_ops_def
  by (induction ops arbitrary: s) (simp_all add: within_total_step)

lemma quantity_run: "quantity (run_ops p s ops) = quantity s"
  unfolding run_ops_def
  by (induction ops arbitrary: s) (simp_all add: quantity_step)

lemma never_raises_take: "never_raises p s ops \<Longrightarrow> never_raises p s (take n ops)"
proof (induction ops arbitrary: s n)
  case Nil
  then show ?case by simp
next
  case (Cons x xs)
  then show ?case by (cases n) simp_all
qed

text \<open>
  Claim C2, as stated (after every sequence of additions, removals and quantity
  updates from the empty list, the quantities sum to at most the requested total),
  fails: with 5 units requested, an entry of 2 units is accepted and its quantity is
  then updated to 10. \<open>updateDistributionItemQuantity\<close> compares the new quantity with
  nothing but zero.
\<close>

theorem update_exceeds_total:
  "\<not> distributedQuantity
       (run_ops \<lparr>price = 10, status = js ''disponivel'', has_tiered_pricing = False,
                 colors = Some [js ''red''], sizes = None\<rparr>
          (initial_page 5)
          [AddItem (Some (js ''red'')) None 2 (js ''a''), UpdateQuantity (js ''a'') 10])
     \<le> quantity (initial_page 5)"
  by (simp add: run_ops_def initial_page_def addDistributionItem_def
      updateDistributionItemQuantity_def distributedQuantity_def hasColors_def hasSizes_def
      hasEntries_def js_def trim_def isWhiteSpace_def)

text \<open>
  Claim C2, amended: starting from the empty list with a total that is not negative,
  after every sequence of additions, removals and quantity updates in which no update
  raises the quantity of an entry, and at every point of such a sequence, the
  quantities sum to at most the requested total.
\<close>

theorem distribution_within_total:
  assumes "distributionItems s = []" and "0 \<le> quantity s" and "never_raises p s ops"
  shows "distributedQuantity (run_ops p s (take n ops)) \<le> quantity s"
proof -
  from assms(1,2) have "within_total s"
    by (simp add: within_total_def positive_items_def distributedQuantity_def)
  with never_raises_take[OF assms(3)] have "within_total (run_ops p s (take n ops))"
    by (rule within_total_run[rotated])
  then show ?thesis
    by (simp add: within_total_def quantity_run)
qed

text \<open>
  The amended claim at work: 5 units requested, 2 red and 3 blue accepted, a third
  entry refused, the red entry lowered to 1 and the blue one removed.
\<close>

theorem distribution_within_total_witness:
  "distributionItems (initial_page 5) = []
   \<and> 0 \<le> quantity (initial_page 5)
   \<and> never_raises
       \<lparr>price = 10, status = js ''disponivel'', has_tiered_pricing = False,
        colors = Some [js ''red'', js ''blue''], sizes = None\<rparr>
       (initial_page 5)
       [AddItem (Some (js ''red'')) None 2 (js ''a''), AddItem (Some (js ''blue'')) None 3 (js ''b''),
        AddItem (Some (js ''green'')) None 1 (js ''c''), UpdateQuantity (js ''a'') 1,
        RemoveItem (js ''b'')]
   \<and> distributedQuantity
       (run_ops
          \<lparr>price = 10, status = js ''disponivel'', has_tiered_pricing = False,
           colors = Some [js ''red'', js ''blue''], sizes = None\<rparr>
          (initial_page 5)
          (take 4
             [AddItem (Some (js ''red'')) None 2 (js ''a''), AddItem (Some (js ''blue'')) None 3 (js ''b''),
              AddItem (Some (js ''green'')) None 1 (js ''c''), UpdateQuantity (js ''a'') 1,
              RemoveItem (js ''b'')]))
     \<le> quantity (initial_page 5)"
proof -
  let ?p = "\<lparr>price = 10, status = js ''disponivel'', has_tiered_pricing = False,
             colors = Some [js ''red'', js ''blue''], sizes = None\<rparr>"
  let ?ops = "[AddItem (Some (js ''red'')) None 2 (js ''a''), AddItem (Some (js ''blue'')) None 3 (js ''b''),
               AddItem (Some (js ''green'')) None 1 (js ''c''), UpdateQuantity (js ''a'') 1,
               RemoveItem (js ''b'')]"
  have h1: "distributionItems (initial_page 5) = []"
    by (simp add: initial_page_def)
  have h2: "0 \<le> quantity (initial_page 5)"
    by (simp add: initial_page_def)
  have h3: "never_raises ?p (initial_page 5) ?ops"
    by (simp add: initial_page_def addDistributionItem_def updateDistributionItemQuantity_def
        removeDistributionItem_def distributedQuantity_def hasColors_def hasSizes_def
        hasEntries_def js_def trim_def isWhiteSpace_def)
  from distribution_within_total[OF h1 h2 h3, of 4] h1 h2 h3 show ?thesis
    by blast
qed

subsection \<open>Duplicates and missing attributes\<close>









subsection \<open>Checkout\<close>

text \<open>
  Once the effect of lines 213-232 has run, a page in distribution mode has a product
  with options and a requested quantity above one.
\<close>

lemma sync_fixed:
  assumes "syncDistributionMode p s = s" "distributionMode s"
  shows "hasOptions p" and "quantity s > 1"
proof -
  have "hasOptions p \<and> quantity s > 1"
  proof (rule ccontr)
    assume "\<not> ?thesis"
    then have "syncDistributionMode p s = s\<lparr>distributionMode := False, distributionItems := []\<rparr>"
      by (auto simp: syncDistributionMode_def)
    then have "distributionMode (syncDistributionMode p s) = False" by simp
    with assms show False by simp
  qed
  then show "hasOptions p" and "quantity s > 1" by auto
qed

text \<open>
  Claim C3, as stated (in distribution mode the operation proceeds if and only if the
  quantities sum to the requested total), fails: \<open>handleAddToCart\<close> opens with the
  guard \<open>if (!isAvailable || !hasPrice) return\<close>. For a product that is sold, in
  distribution mode and with 2 red and 1 blue distributed of 3 requested, nothing is
  sent to the cart.
\<close>

theorem sold_product_sends_nothing:
  "distributionMode
     \<lparr>quantity = 3, selectedColor = None, selectedSize = None, distributionMode = True,
      distributionItems =
        [\<lparr>item_id = js ''a'', color = Some (js ''red''), item_size = None, item_quantity = 2\<rparr>,
         \<lparr>item_id = js ''b'', color = Some (js ''blue''), item_size = None, item_quantity = 1\<rparr>],
      newItemColor = None, newItemSize = None, newItemQuantity = 1,
      cart = [], toasts = []\<rparr>
   \<and> hasOptions
       \<lparr>price = 10, status = js ''vendido'', has_tiered_pricing = False,
        colors = Some [js ''red'', js ''blue''], sizes = None\<rparr>
   \<and> distributedQuantity
       \<lparr>quantity = 3, selectedColor = None, selectedSize = None, distributionMode = True,
        distributionItems =
          [\<lparr>item_id = js ''a'', color = Some (js ''red''), item_size = None, item_quantity = 2\<rparr>,
           \<lparr>item_id = js ''b'', color = Some (js ''blue''), item_size = None, item_quantity = 1\<rparr>],
        newItemColor = None, newItemSize = None, newItemQuantity = 1,
        cart = [], toasts = []\<rparr> = 3
   \<and> cart (handleAddToCart
           \<lparr>price = 10, status = js ''vendido'', has_tiered_pricing = False,
            colors = Some [js ''red'', js ''blue''], sizes = None\<rparr>
           []
           \<lparr>quantity = 3, selectedColor = None, selectedSize = None, distributionMode = True,
            distributionItems =
              [\<lparr>item_id = js ''a'', color = Some (js ''red''), item_size = None, item_quantity = 2\<rparr>,
               \<lparr>item_id = js ''b'', color = Some (js ''blue''), item_size = None, item_quantity = 1\<rparr>],
            newItemColor = None, newItemSize = None, newItemQuantity = 1,
            cart = [], toasts = []\<rparr>) = []"
  by (simp add: handleAddToCart_def isAvailable_def distributedQuantity_def hasOptions_def
      hasColors_def hasEntries_def js_def trim_def isWhiteSpace_def)

lemma handleAddToCart_closed:
  "\<not> (isAvailable p \<and> hasPrice p) \<Longrightarrow> handleAddToCart p priceTiers s = s"
  by (auto simp: handleAddToCart_def)

lemma handleAddToCart_sends:
  assumes "isAvailable p" "hasPrice p" "distributionMode s" "hasOptions p"
    and "distributedQuantity s = quantity s" "distributionItems s \<noteq> []"
  shows "cart (handleAddToCart p priceTiers s) =
           cart s @ map (\<lambda>item. AddToCart (color item) (item_size item) (item_quantity item)
                          (unitPrice_find (has_tiered_pricing p) (price p) priceTiers (quantity s)))
                      (distributionItems s)"
  using assms
  by (simp add: handleAddToCart_def isDistributionComplete_def resetAfterAdd_def Let_def)

lemma handleAddToCart_rejects:
  assumes "isAvailable p" "hasPrice p" "distributionMode s" "hasOptions p"
    and "distributedQuantity s \<noteq> quantity s \<or> distributionItems s = []"
  shows "rejected s (handleAddToCart p priceTiers s)"
  using assms
  by (auto simp: handleAddToCart_def isDistributionComplete_def Let_def rejectedI is_error_def)

lemma complete_not_empty:
  "quantity s \<noteq> 0 \<Longrightarrow> distributedQuantity s = quantity s \<Longrightarrow> distributionItems s \<noteq> []"
  by (auto simp: distributedQuantity_def)

text \<open>
  Claim C3, amended: in distribution mode (the mode is on and the product has
  options), for a product that is not available or has no price \<open>handleAddToCart\<close>
  returns at once and changes nothing; for a product that is available and has a
  price, items are sent to the cart if and only if the quantities of the distribution
  sum to the requested total and the distribution list is not empty; then one call
  per entry of the distribution is made; when the sums differ or the list is empty
  the operation is rejected: the cart and the distribution list stay as they are.
  A list whose quantities sum to a requested total other than zero is not empty.
\<close>

theorem checkout_gating:
  assumes "distributionMode s" and "hasOptions p"
  shows "(\<not> (isAvailable p \<and> hasPrice p) \<longrightarrow> handleAddToCart p priceTiers s = s)
       \<and> (isAvailable p \<and> hasPrice p \<longrightarrow>
            (cart (handleAddToCart p priceTiers s) \<noteq> cart s
               \<longleftrightarrow> distributedQuantity s = quantity s \<and> distributionItems s \<noteq> [])
          \<and> (distributedQuantity s = quantity s \<and> distributionItems s \<noteq> [] \<longrightarrow>
               cart (handleAddToCart p priceTiers s) =
                 cart s @ map (\<lambda>item. AddToCart (color item) (item_size item) (item_quantity item)
                                (unitPrice_find (has_tiered_pricing p) (price p) priceTiers
                                   (quantity s)))
                            (distributionItems s))
          \<and> (distributedQuantity s \<noteq> quantity s \<or> distributionItems s = [] \<longrightarrow>
               rejected s (handleAddToCart p priceTiers s)
               \<and> cart (handleAddToCart p priceTiers s) = cart s
               \<and> distributionItems (handleAddToCart p priceTiers s) = distributionItems s))
       \<and> (quantity s \<noteq> 0 \<and> distributedQuantity s = quantity s \<longrightarrow> distributionItems s \<noteq> [])"
proof -
  have closed: "\<not> (isAvailable p \<and> hasPrice p) \<longrightarrow> handleAddToCart p priceTiers s = s"
    using handleAddToCart_closed by blast
  have ne: "quantity s \<noteq> 0 \<and> distributedQuantity s = quantity s \<longrightarrow> distributionItems s \<noteq> []"
    using complete_not_empty by blast
  have "open": "(cart (handleAddToCart p priceTiers s) \<noteq> cart s
               \<longleftrightarrow> distributedQuantity s = quantity s \<and> distributionItems s \<noteq> [])
          \<and> (distributedQuantity s = quantity s \<and> distributionItems s \<noteq> [] \<longrightarrow>
               cart (handleAddToCart p priceTiers s) =
                 cart s @ map (\<lambda>item. AddToCart (color item) (item_size item) (item_quantity item)
                                (unitPrice_find (has_tiered_pricing p) (price p) priceTiers
                                   (quantity s)))
                            (distributionItems s))
          \<and> (distributedQuantity s \<noteq> quantity s \<or> distributionItems s = [] \<longrightarrow>
               rejected s (handleAddToCart p priceTiers s)
               \<and> cart (handleAddToCart p priceTiers s) = cart s
               \<and> distributionItems (handleAddToCart p priceTiers s) = distributionItems s)"
    if av: "isAvailable p" "hasPrice p"
  proof (cases "distributedQuantity s = quantity s \<and> distributionItems s \<noteq> []")
    case True
    then have c: "distributedQuantity s = quantity s" and n: "distributionItems s \<noteq> []" by auto
    from handleAddToCart_sends[OF av assms c n, of priceTiers] n True show ?thesis
      by simp
  next
    case False
    then have f: "distributedQuantity s \<noteq> quantity s \<or> distributionItems s = []" by blast
    from handleAddToCart_rejects[OF av assms f, of priceTiers] have
      r: "rejected s (handleAddToCart p priceTiers s)" .
    from rejected_unchanged[OF r] r False show ?thesis by simp
  qed
  from closed "open" ne show ?thesis by blast
qed

text \<open>
  The amended claim at work, with 3 units requested: a distribution of 2 red and 1
  blue is sent to the cart, a distribution of 2 red alone is rejected, and for a sold
  product nothing changes.
\<close>

theorem checkout_gating_witness:
  "cart (handleAddToCart
           \<lparr>price = 10, status = js ''disponivel'', has_tiered_pricing = False,
            colors = Some [js ''red'', js ''blue''], sizes = None\<rparr>
           []
           \<lparr>quantity = 3, selectedColor = None, selectedSize = None, distributionMode = True,
            distributionItems =
              [\<lparr>item_id = js ''a'', color = Some (js ''red''), item_size = None, item_quantity = 2\<rparr>,
               \<lparr>item_id = js ''b'', color = Some (js ''blue''), item_size = None, item_quantity = 1\<rparr>],
            newItemColor = None, newItemSize = None, newItemQuantity = 1,
            cart = [], toasts = []\<rparr>)
     = [AddToCart (Some (js ''red'')) None 2 None, AddToCart (Some (js ''blue'')) None 1 None]
   \<and> rejected
       \<lparr>quantity = 3, selectedColor = None, selectedSize = None, distributionMode = True,
        distributionItems =
          [\<lparr>item_id = js ''a'', color = Some (js ''red''), item_size = None, item_quantity = 2\<rparr>],
        newItemColor = None, newItemSize = None, newItemQuantity = 1,
        cart = [], toasts = []\<rparr>
       (handleAddToCart
          \<lparr>price = 10, status = js ''disponivel'', has_tiered_pricing = False,
           colors = Some [js ''red'', js ''blue''], sizes = None\<rparr>
          []
          \<lparr>quantity = 3, selectedColor = None, selectedSize = None, distributionMode = True,
           distributionItems =
             [\<lparr>item_id = js ''a'', color = Some (js ''red''), item_size = None, item_quantity = 2\<rparr>],
           newItemColor = None, newItemSize = None, newItemQuantity = 1,
           cart = [], toasts = []\<rparr>)
   \<and> handleAddToCart
       \<lparr>price = 10, status = js ''vendido'', has_tiered_pricing = False,
        colors = Some [js ''red'', js ''blue''], sizes = None\<rparr>
       []
       \<lparr>quantity = 3, selectedColor = None, selectedSize = None, distributionMode = True,
        distributionItems =
          [\<lparr>item_id = js ''a'', color = Some (js ''red''), item_size = None, item_quantity = 2\<rparr>],
        newItemColor = None, newItemSize = None, newItemQuantity = 1,
        cart = [], toasts = []\<rparr>
     = \<lparr>quantity = 3, selectedColor = None, selectedSize = None, distributionMode = True,
        distributionItems =
          [\<lparr>item_id = js ''a'', color = Some (js ''red''), item_size = None, item_quantity = 2\<rparr>],
        newItemColor = None, newItemSize = None, newItemQuantity = 1,
        cart = [], toasts = []\<rparr>"
proof -
  let ?p = "\<lparr>price = 10, status = js ''disponivel'', has_tiered_pricing = False,
             colors = Some [js ''red'', js ''blue''], sizes = None\<rparr>"
  let ?sold = "\<lparr>price = 10, status = js ''vendido'', has_tiered_pricing = False,
             colors = Some [js ''red'', js ''blue''], sizes = None\<rparr>"
  let ?full = "\<lparr>quantity = 3, selectedColor = None, selectedSize = None, distributionMode = True,
            distributionItems =
              [\<lparr>item_id = js ''a'', color = Some (js ''red''), item_size = None, item_quantity = 2\<rparr>,
               \<lparr>item_id = js ''b'', color = Some (js ''blue''), item_size = None, item_quantity = 1\<rparr>],
            newItemColor = None, newItemSize = None, newItemQuantity = 1,
            cart = [], toasts = []\<rparr>"
  let ?part = "\<lparr>quantity = 3, selectedColor = None, selectedSize = None, distributionMode = True,
        distributionItems =
          [\<lparr>item_id = js ''a'', color = Some (js ''red''), item_size = None, item_quantity = 2\<rparr>],
        newItemColor = None, newItemSize = None, newItemQuantity = 1,
        cart = [], toasts = []\<rparr>"
  have a: "isAvailable ?p \<and> hasPrice ?p" by (simp add: isAvailable_def hasPrice_def)
  have na: "\<not> (isAvailable ?sold \<and> hasPrice ?sold)" by (simp add: isAvailable_def js_def)
  have opt: "hasOptions ?p"
    by (simp add: hasOptions_def hasColors_def hasEntries_def js_def trim_def isWhiteSpace_def)
  have opt': "hasOptions ?sold"
    by (simp add: hasOptions_def hasColors_def hasEntries_def js_def trim_def isWhiteSpace_def)
  have d1: "distributionMode ?full" by simp
  have d2: "distributionMode ?part" by simp
  have e1: "distributedQuantity ?full = quantity ?full \<and> distributionItems ?full \<noteq> []"
    by (simp add: distributedQuantity_def)
  have e2: "distributedQuantity ?part \<noteq> quantity ?part" by (simp add: distributedQuantity_def)
  from checkout_gating[OF d1 opt, of "[]"] a e1
  have "cart (handleAddToCart ?p [] ?full) =
          cart ?full @ map (\<lambda>item. AddToCart (color item) (item_size item) (item_quantity item)
                             (unitPrice_find (has_tiered_pricing ?p) (price ?p) [] (quantity ?full)))
                         (distributionItems ?full)"
    by blast
  then have r1: "cart (handleAddToCart ?p [] ?full) =
     [AddToCart (Some (js ''red'')) None 2 None, AddToCart (Some (js ''blue'')) None 1 None]"
    by (simp add: unitPrice_find_def)
  from checkout_gating[OF d2 opt, of "[]"] a e2
  have r2: "rejected ?part (handleAddToCart ?p [] ?part)"
    by blast
  from checkout_gating[OF d2 opt', of "[]"] na
  have r3: "handleAddToCart ?sold [] ?part = ?part"
    by blast
  from r1 r2 r3 show ?thesis by blast
qed

section \<open>YouTube identifiers\<close>


















section \<open>Upload and crop\<close>

lemma slice0_take: "0 \<le> e \<Longrightarrow> slice0 xs e = take (nat e) xs"
  by (simp add: slice0_def)

lemma pendingFiles_select:
  "pendingFiles (handleFileSelect (Some fs) s) =
     (if validFiles s fs = [] then pendingFiles s else validFiles s fs)"
  by (simp add: handleFileSelect_def validFiles_def Let_def)

lemma images_select: "images (handleFileSelect files s) = images s"
  by (simp add: handleFileSelect_def Let_def split: option.splits)

lemma recrop_select: "imageToRecrop (handleFileSelect files s) = imageToRecrop s"
  by (simp add: handleFileSelect_def Let_def split: option.splits)

lemma selected_select:
  "selectedFile (handleFileSelect (Some fs) s) =
     (if validFiles s fs = [] then selectedFile s else Some (hd (validFiles s fs)))"
  by (cases "validFiles s fs")
     (auto simp: handleFileSelect_def validFiles_def Let_def at_index_def)

lemma index_select:
  "validFiles s fs \<noteq> [] \<Longrightarrow> currentFileIndex (handleFileSelect (Some fs) s) = 0"
  by (auto simp: handleFileSelect_def validFiles_def Let_def)

lemma validFiles_valid: "f \<in> set (validFiles s fs) \<Longrightarrow> validFile (maxFileSize s) f"
  by (simp add: validFiles_def)

lemma crop_idle:
  "imageToRecrop t = None \<Longrightarrow> selectedFile t = None \<Longrightarrow> crop_all crops t = t"
  by (induction crops) (auto simp: handleCropComplete_def)

lemma crop_step_next:
  assumes "imageToRecrop t = None" "selectedFile t = Some f" "currentFileIndex t + 1 < length (pendingFiles t)"
  shows "\<exists>e. images (handleCropComplete now u b t) = images t @ [e] \<and> source_name e = Some (file_name f)"
    and "imageToRecrop (handleCropComplete now u b t) = None"
    and "pendingFiles (handleCropComplete now u b t) = pendingFiles t"
    and "currentFileIndex (handleCropComplete now u b t) = currentFileIndex t + 1"
    and "selectedFile (handleCropComplete now u b t) = Some (pendingFiles t ! (currentFileIndex t + 1))"
  using assms by (simp_all add: handleCropComplete_def Let_def source_name_def at_index_def)

lemma crop_step_last:
  assumes "imageToRecrop t = None" "selectedFile t = Some f" "\<not> currentFileIndex t + 1 < length (pendingFiles t)"
  shows "\<exists>e. images (handleCropComplete now u b t) = images t @ [e] \<and> source_name e = Some (file_name f)"
    and "imageToRecrop (handleCropComplete now u b t) = None"
    and "selectedFile (handleCropComplete now u b t) = None"
    and "pendingFiles (handleCropComplete now u b t) = []"
  using assms by (simp_all add: handleCropComplete_def Let_def source_name_def)

lemma crop_run:
  assumes "imageToRecrop t = None" "currentFileIndex t < length (pendingFiles t)"
    and "selectedFile t = Some (pendingFiles t ! currentFileIndex t)"
  shows "\<exists>new. images (crop_all crops t) = images t @ new \<and>
           map source_name new =
             map (\<lambda>f. Some (file_name f))
               (take (length crops) (drop (currentFileIndex t) (pendingFiles t)))"
  using assms
proof (induction crops arbitrary: t)
  case Nil
  then show ?case by simp
next
  case (Cons c rest)
  obtain now u b where c: "c = (now, u, b)" by (cases c)
  let ?t1 = "handleCropComplete now u b t"
  let ?i = "currentFileIndex t"
  let ?V = "pendingFiles t"
  have dropV: "drop ?i ?V = ?V ! ?i # drop (Suc ?i) ?V"
    using Cons.prems(2) by (simp add: Cons_nth_drop_Suc)
  show ?case
  proof (cases "?i + 1 < length ?V")
    case True
    from crop_step_next[OF Cons.prems(1,3) True, of now u b]
    obtain e where e: "images ?t1 = images t @ [e]" "source_name e = Some (file_name (?V ! ?i))"
      and st: "imageToRecrop ?t1 = None" "pendingFiles ?t1 = ?V" "currentFileIndex ?t1 = ?i + 1"
        "selectedFile ?t1 = Some (?V ! (?i + 1))"
      by blast
    have "\<exists>new. images (crop_all rest ?t1) = images ?t1 @ new \<and>
           map source_name new =
             map (\<lambda>f. Some (file_name f))
               (take (length rest) (drop (currentFileIndex ?t1) (pendingFiles ?t1)))"
      using st True by (intro Cons.IH) simp_all
    then obtain new where new: "images (crop_all rest ?t1) = images ?t1 @ new"
      "map source_name new = map (\<lambda>f. Some (file_name f)) (take (length rest) (drop (Suc ?i) ?V))"
      using st by auto
    have "images (crop_all (c # rest) t) = images t @ (e # new)"
      using c new(1) e(1) by simp
    moreover have "map source_name (e # new) =
        map (\<lambda>f. Some (file_name f)) (take (length (c # rest)) (drop ?i ?V))"
      using e(2) new(2) dropV by simp
    ultimately show ?thesis by blast
  next
    case False
    from crop_step_last[OF Cons.prems(1,3) False, of now u b]
    obtain e where e: "images ?t1 = images t @ [e]" "source_name e = Some (file_name (?V ! ?i))"
      and st: "imageToRecrop ?t1 = None" "selectedFile ?t1 = None"
      by blast
    from crop_idle[OF st] have "crop_all rest ?t1 = ?t1" .
    then have "images (crop_all (c # rest) t) = images t @ [e]"
      using c e(1) by simp
    moreover from False Cons.prems(2) have "drop (Suc ?i) ?V = []" by simp
    then have "map source_name [e] =
        map (\<lambda>f. Some (file_name f)) (take (length (c # rest)) (drop ?i ?V))"
      using e(2) dropV by simp
    ultimately show ?thesis by blast
  qed
qed

lemma crop_after_select:
  assumes "idle s"
  shows "\<exists>new. images (crop_all crops (handleFileSelect (Some fs) s)) = images s @ new \<and>
           map source_name new =
             map (\<lambda>f. Some (file_name f)) (take (length crops) (validFiles s fs))"
proof (cases "validFiles s fs = []")
  case True
  with assms have "imageToRecrop (handleFileSelect (Some fs) s) = None"
    "selectedFile (handleFileSelect (Some fs) s) = None"
    by (simp_all add: recrop_select selected_select idle_def)
  from crop_idle[OF this] True show ?thesis
    by (simp add: images_select)
next
  case False
  let ?s1 = "handleFileSelect (Some fs) s"
  from False assms have "imageToRecrop ?s1 = None" "currentFileIndex ?s1 < length (pendingFiles ?s1)"
    "selectedFile ?s1 = Some (pendingFiles ?s1 ! currentFileIndex ?s1)"
    by (simp_all add: recrop_select selected_select index_select pendingFiles_select idle_def hd_conv_nth)
  from crop_run[OF this, of crops] False show ?thesis
    by (simp add: images_select index_select pendingFiles_select)
qed

lemma validFile_words:
  "validFile limit =
     (\<lambda>f. of_nat (file_size f) \<le> limit * 1024 * 1024 \<and> startsWith (file_type f) (js ''image/''))"
  by (rule ext) (auto simp: validFile_def tooLarge_def)

lemma image_types:
  "startsWith (js ''image/png'') (js ''image/'')"
  "\<not> startsWith (js ''application/pdf'') (js ''image/'')"
  by (simp_all add: startsWith_def js_def)

text \<open>
  Claim C7, as stated (the files admitted are the valid files, truncated to the
  remaining slots), fails: the selection is truncated first and validated after.
  With two slots left and three files selected, the first of them of 6MB under a
  limit of 5MB, the valid files truncated to two slots are \<open>a.png\<close> and \<open>b.png\<close>;
  \<open>handleFileSelect\<close> admits \<open>a.png\<close> alone.
\<close>

theorem truncation_precedes_validation:
  "pendingFiles
     (handleFileSelect
        (Some [\<lparr>file_name = js ''big.png'', file_size = 6291456, file_type = js ''image/png''\<rparr>,
               \<lparr>file_name = js ''a.png'', file_size = 1000, file_type = js ''image/png''\<rparr>,
               \<lparr>file_name = js ''b.png'', file_size = 2000, file_type = js ''image/png''\<rparr>])
        \<lparr>images = [], maxImages = 2, maxFileSize = 5, showCropper = False, selectedFile = None,
         pendingFiles = [], currentFileIndex = 0, imageToRecrop = None, showVideoDialog = False,
         youtubeUrl = [], media_toasts = []\<rparr>)
   = [\<lparr>file_name = js ''a.png'', file_size = 1000, file_type = js ''image/png''\<rparr>]
   \<and> take 2
       (filter (\<lambda>f. of_nat (file_size f) \<le> (5::rat) * 1024 * 1024
                    \<and> startsWith (file_type f) (js ''image/''))
          [\<lparr>file_name = js ''big.png'', file_size = 6291456, file_type = js ''image/png''\<rparr>,
           \<lparr>file_name = js ''a.png'', file_size = 1000, file_type = js ''image/png''\<rparr>,
           \<lparr>file_name = js ''b.png'', file_size = 2000, file_type = js ''image/png''\<rparr>])
   = [\<lparr>file_name = js ''a.png'', file_size = 1000, file_type = js ''image/png''\<rparr>,
      \<lparr>file_name = js ''b.png'', file_size = 2000, file_type = js ''image/png''\<rparr>]"
  by (simp add: handleFileSelect_def validFiles_def filesToAdd_def remainingSlots_def slice0_def
      validFile_def tooLarge_def rejection_def at_index_def image_types Let_def)

text \<open>
  Claim C7, amended: from the idle state and with no more media than \<open>maxImages\<close>,
  \<open>handleFileSelect\<close> admits to the crop pipeline exactly the files, among the first
  \<open>maxImages - images.length\<close> selected, whose size is at most \<open>maxFileSize\<close> megabytes
  and whose MIME type starts with \<open>image/\<close>; a file above the size limit or of another
  type is never admitted; and the crop dialog, however often it completes, appends to
  the media list one entry per admitted file and nothing else, each cut from the
  admitted file whose name it carries.
\<close>

theorem handleFileSelect_admits:
  assumes "idle s"
  shows "(0 \<le> remainingSlots s \<longrightarrow>
           pendingFiles (handleFileSelect (Some fs) s) =
             filter (\<lambda>f. of_nat (file_size f) \<le> maxFileSize s * 1024 * 1024
                          \<and> startsWith (file_type f) (js ''image/''))
               (take (nat (remainingSlots s)) fs))
       \<and> (\<forall>f. of_nat (file_size f) > maxFileSize s * 1024 * 1024
                \<or> \<not> startsWith (file_type f) (js ''image/'')
              \<longrightarrow> f \<notin> set (pendingFiles (handleFileSelect (Some fs) s)))
       \<and> (\<exists>new. images (crop_all crops (handleFileSelect (Some fs) s)) = images s @ new
              \<and> map source_name new =
                  map (\<lambda>f. Some (file_name f))
                    (take (length crops) (pendingFiles (handleFileSelect (Some fs) s))))"
proof -
  from assms have pend: "pendingFiles (handleFileSelect (Some fs) s) = validFiles s fs"
    by (simp add: pendingFiles_select idle_def)
  have one: "0 \<le> remainingSlots s \<longrightarrow>
           pendingFiles (handleFileSelect (Some fs) s) =
             filter (\<lambda>f. of_nat (file_size f) \<le> maxFileSize s * 1024 * 1024
                          \<and> startsWith (file_type f) (js ''image/''))
               (take (nat (remainingSlots s)) fs)"
    unfolding pend validFiles_def filesToAdd_def validFile_words by (simp add: slice0_take)
  have two: "\<forall>f. of_nat (file_size f) > maxFileSize s * 1024 * 1024
                \<or> \<not> startsWith (file_type f) (js ''image/'')
              \<longrightarrow> f \<notin> set (pendingFiles (handleFileSelect (Some fs) s))"
    unfolding pend validFiles_def validFile_words by auto
  from crop_after_select[OF assms, of crops fs] pend
  have three: "\<exists>new. images (crop_all crops (handleFileSelect (Some fs) s)) = images s @ new
              \<and> map source_name new =
                  map (\<lambda>f. Some (file_name f))
                    (take (length crops) (pendingFiles (handleFileSelect (Some fs) s)))"
    by simp
  from one two three show ?thesis by blast
qed

text \<open>
  The amended claim at work, with the default limits: of a 6MB image, a PDF and a
  small image only the last is admitted, and two completions of the crop dialog add
  one entry, cut from it.
\<close>

theorem handleFileSelect_admits_witness:
  "idle \<lparr>images = [], maxImages = 10, maxFileSize = 5, showCropper = False, selectedFile = None,
         pendingFiles = [], currentFileIndex = 0, imageToRecrop = None, showVideoDialog = False,
         youtubeUrl = [], media_toasts = []\<rparr>
   \<and> pendingFiles
     (handleFileSelect
        (Some [\<lparr>file_name = js ''big.png'', file_size = 6291456, file_type = js ''image/png''\<rparr>,
               \<lparr>file_name = js ''doc.pdf'', file_size = 1000, file_type = js ''application/pdf''\<rparr>,
               \<lparr>file_name = js ''a.png'', file_size = 2000, file_type = js ''image/png''\<rparr>])
        \<lparr>images = [], maxImages = 10, maxFileSize = 5, showCropper = False, selectedFile = None,
         pendingFiles = [], currentFileIndex = 0, imageToRecrop = None, showVideoDialog = False,
         youtubeUrl = [], media_toasts = []\<rparr>)
   = [\<lparr>file_name = js ''a.png'', file_size = 2000, file_type = js ''image/png''\<rparr>]
   \<and> map source_name
       (images
          (crop_all [(1000, js ''blob:1'', \<lparr>blob_size = 500, blob_type = js ''image/jpeg''\<rparr>),
                     (2000, js ''blob:2'', \<lparr>blob_size = 600, blob_type = js ''image/jpeg''\<rparr>)]
             (handleFileSelect
                (Some [\<lparr>file_name = js ''big.png'', file_size = 6291456, file_type = js ''image/png''\<rparr>,
                       \<lparr>file_name = js ''doc.pdf'', file_size = 1000, file_type = js ''application/pdf''\<rparr>,
                       \<lparr>file_name = js ''a.png'', file_size = 2000, file_type = js ''image/png''\<rparr>])
                \<lparr>images = [], maxImages = 10, maxFileSize = 5, showCropper = False,
                 selectedFile = None, pendingFiles = [], currentFileIndex = 0,
                 imageToRecrop = None, showVideoDialog = False, youtubeUrl = [],
                 media_toasts = []\<rparr>)))
   = [Some (js ''a.png'')]"
proof -
  let ?s = "\<lparr>images = [], maxImages = 10, maxFileSize = 5, showCropper = False,
             selectedFile = None, pendingFiles = [], currentFileIndex = 0,
             imageToRecrop = None, showVideoDialog = False, youtubeUrl = [],
             media_toasts = []\<rparr>"
  let ?fs = "[\<lparr>file_name = js ''big.png'', file_size = 6291456, file_type = js ''image/png''\<rparr>,
              \<lparr>file_name = js ''doc.pdf'', file_size = 1000, file_type = js ''application/pdf''\<rparr>,
              \<lparr>file_name = js ''a.png'', file_size = 2000, file_type = js ''image/png''\<rparr>]"
  let ?crops = "[(1000::nat, js ''blob:1'', \<lparr>blob_size = 500, blob_type = js ''image/jpeg''\<rparr>),
                 (2000::nat, js ''blob:2'', \<lparr>blob_size = 600, blob_type = js ''image/jpeg''\<rparr>)]"
  have i: "idle ?s" by (simp add: idle_def)
  have r: "0 \<le> remainingSlots ?s" by (simp add: remainingSlots_def)
  note t = handleFileSelect_admits[OF i, of ?fs ?crops]
  from t[THEN conjunct1] r have "pendingFiles (handleFileSelect (Some ?fs) ?s) =
             filter (\<lambda>f. of_nat (file_size f) \<le> maxFileSize ?s * 1024 * 1024
                          \<and> startsWith (file_type f) (js ''image/''))
               (take (nat (remainingSlots ?s)) ?fs)"
    by blast
  then have p: "pendingFiles (handleFileSelect (Some ?fs) ?s) =
      [\<lparr>file_name = js ''a.png'', file_size = 2000, file_type = js ''image/png''\<rparr>]"
    by (simp add: remainingSlots_def image_types)
  from t[THEN conjunct2, THEN conjunct2] obtain new where
    n: "images (crop_all ?crops (handleFileSelect (Some ?fs) ?s)) = images ?s @ new
        \<and> map source_name new = map (\<lambda>f. Some (file_name f))
            (take (length ?crops) (pendingFiles (handleFileSelect (Some ?fs) ?s)))" ..
  then have "map source_name (images (crop_all ?crops (handleFileSelect (Some ?fs) ?s))) =
      [Some (js ''a.png'')]"
    unfolding p by simp
  with i p show ?thesis by blast
qed

section \<open>Featured media\<close>

lemma filter_le_one_unique:
  assumes "length (filter P xs) \<le> 1" "x \<in> set xs" "P x" "y \<in> set xs" "P y"
  shows "x = y"
proof -
  from assms(2-5) have x: "x \<in> set (filter P xs)" and y: "y \<in> set (filter P xs)" by auto
  from assms(1) x obtain z where "filter P xs = [z]"
    by (cases "filter P xs") (auto simp: le_Suc_eq)
  with x y show ?thesis by simp
qed

lemma find_Some_mem: "find P xs = Some x \<Longrightarrow> x \<in> set xs \<and> P x"
  by (induction xs) (auto split: if_splits)

lemma only_first_at_most_one: "only_first_featured imgs \<Longrightarrow> at_most_one_featured imgs"
  by (cases imgs) (auto simp: only_first_featured_def at_most_one_featured_def list_all_iff filter_empty_conv)

lemma only_first_exactly_one: "only_first_featured imgs \<Longrightarrow> filter isFeatured imgs = [hd imgs]"
  by (cases imgs) (auto simp: only_first_featured_def list_all_iff filter_empty_conv)

lemma remainder_unfeatured:
  assumes "at_most_one_featured imgs"
    and "find (\<lambda>img. media_id img = imageId) imgs = Some r" and "isFeatured r"
  shows "list_all (\<lambda>img. \<not> isFeatured img) (filter (\<lambda>img. media_id img \<noteq> imageId) imgs)"
proof -
  from find_Some_mem[OF assms(2)] have r: "r \<in> set imgs" "media_id r = imageId" by auto
  have "\<not> isFeatured m" if "m \<in> set imgs" "media_id m \<noteq> imageId" for m
  proof
    assume "isFeatured m"
    with filter_le_one_unique[of isFeatured imgs r m] assms(1,3) r(1) that(1)
    have "r = m" by (simp add: at_most_one_featured_def)
    with r(2) that(2) show False by simp
  qed
  then show ?thesis by (simp add: list_all_iff)
qed

lemma removeImage_promotes:
  assumes "at_most_one_featured imgs"
    and "find (\<lambda>img. media_id img = imageId) imgs = Some r" and "isFeatured r"
    and "filter (\<lambda>img. media_id img \<noteq> imageId) imgs \<noteq> []"
  shows "only_first_featured (removeImage imageId imgs)"
    and "removeImage imageId imgs =
           (hd (filter (\<lambda>img. media_id img \<noteq> imageId) imgs))\<lparr>isFeatured := True\<rparr>
           # tl (filter (\<lambda>img. media_id img \<noteq> imageId) imgs)"
proof -
  let ?rem = "filter (\<lambda>img. media_id img \<noteq> imageId) imgs"
  show eq: "removeImage imageId imgs = (hd ?rem)\<lparr>isFeatured := True\<rparr> # tl ?rem"
    using assms(2,3,4) by (simp add: removeImage_def Let_def)
  from remainder_unfeatured[OF assms(1,2,3)] have "list_all (\<lambda>img. \<not> isFeatured img) ?rem" .
  with assms(4) have "list_all (\<lambda>img. \<not> isFeatured img) (tl ?rem)"
    by (cases ?rem) auto
  with eq show "only_first_featured (removeImage imageId imgs)"
    by (simp add: only_first_featured_def)
qed

lemma removeImage_keeps_invariant:
  assumes "at_most_one_featured imgs"
  shows "at_most_one_featured (removeImage imageId imgs)"
proof (cases "(case find (\<lambda>img. media_id img = imageId) imgs of None \<Rightarrow> False | Some r \<Rightarrow> isFeatured r)
              \<and> filter (\<lambda>img. media_id img \<noteq> imageId) imgs \<noteq> []")
  case True
  then obtain r where "find (\<lambda>img. media_id img = imageId) imgs = Some r" "isFeatured r"
    by (auto split: option.splits)
  with True assms have "only_first_featured (removeImage imageId imgs)"
    by (intro removeImage_promotes(1)) auto
  then show ?thesis by (rule only_first_at_most_one)
next
  case False
  then have "removeImage imageId imgs = filter (\<lambda>img. media_id img \<noteq> imageId) imgs"
    by (auto simp: removeImage_def Let_def)
  moreover have "length (filter isFeatured (filter (\<lambda>img. media_id img \<noteq> imageId) imgs))
                 \<le> length (filter isFeatured imgs)"
    by (induction imgs) auto
  ultimately show ?thesis using assms by (simp add: at_most_one_featured_def)
qed

lemma setFeaturedImage_at_most_one:
  "distinct (map media_id imgs) \<Longrightarrow> at_most_one_featured (setFeaturedImage imageId imgs)"
proof (induction imgs)
  case Nil
  then show ?case by (simp add: at_most_one_featured_def setFeaturedImage_def)
next
  case (Cons m ms)
  show ?case
  proof (cases "media_id m = imageId")
    case True
    from Cons.prems have notin: "media_id m \<notin> media_id ` set ms" by simp
    have "\<forall>x\<in>set ms. media_id x \<noteq> imageId"
    proof
      fix x assume "x \<in> set ms"
      then have "media_id x \<in> media_id ` set ms" by (rule imageI)
      with notin True show "media_id x \<noteq> imageId" by metis
    qed
    then have "filter isFeatured (setFeaturedImage imageId ms) = []"
      by (auto simp: setFeaturedImage_def filter_empty_conv)
    with True show ?thesis
      using Cons.prems by (simp add: at_most_one_featured_def setFeaturedImage_def)
  next
    case False
    with Cons show ?thesis
      by (simp add: at_most_one_featured_def setFeaturedImage_def)
  qed
qed

text \<open>
  The two handlers that add a media entry keep the invariant too: the entry they add
  is featured only when the list was empty.
\<close>

lemma featured_map_same:
  "(\<And>m. isFeatured (f m) = isFeatured m) \<Longrightarrow>
   length (filter isFeatured (map f xs)) = length (filter isFeatured xs)"
  by (induction xs) auto

lemma handleCropComplete_keeps_invariant:
  assumes "at_most_one_featured (images s)"
  shows "at_most_one_featured (images (handleCropComplete now u b s))"
proof (cases "imageToRecrop s")
  case (Some target)
  then show ?thesis
    using assms featured_map_same[of
        "\<lambda>img. if media_id img = media_id target
               then img\<lparr>url := u,
                        media_file := Some \<lparr>file_name = js ''recropped-'' @ showNat now @ js ''.jpg'',
                                            file_size = blob_size b,
                                            file_type = js ''image/jpeg''\<rparr>\<rparr>
               else img" "images s"]
    by (simp add: handleCropComplete_def at_most_one_featured_def Let_def)
next
  case None
  show ?thesis
  proof (cases "selectedFile s")
    case None
    with \<open>imageToRecrop s = None\<close> assms show ?thesis
      by (simp add: handleCropComplete_def)
  next
    case (Some sel)
    with \<open>imageToRecrop s = None\<close> assms show ?thesis
      by (cases "images s = []")
         (simp_all add: handleCropComplete_def at_most_one_featured_def Let_def)
  qed
qed

lemma handleAddVideo_keeps_invariant:
  assumes "at_most_one_featured (images s)"
  shows "at_most_one_featured (images (handleAddVideo now s))"
  using assms
  by (cases "images s = []")
     (simp_all add: handleAddVideo_def at_most_one_featured_def split: option.splits)

text \<open>
  Claim C8: the invariant "at most one media item is featured" is kept by
  \<open>removeImage\<close>, and by \<open>setFeaturedImage\<close> on a list whose identifiers are distinct;
  and when the removed item is the featured one and other items remain, exactly one
  item of the resulting list is featured, its first, which is the first remaining
  item with the flag set.
\<close>

theorem featured_media:
  assumes "at_most_one_featured imgs"
  shows "at_most_one_featured (removeImage imageId imgs)
       \<and> (distinct (map media_id imgs) \<longrightarrow> at_most_one_featured (setFeaturedImage imageId imgs))
       \<and> ((\<exists>r. find (\<lambda>img. media_id img = imageId) imgs = Some r \<and> isFeatured r)
            \<and> filter (\<lambda>img. media_id img \<noteq> imageId) imgs \<noteq> []
          \<longrightarrow> only_first_featured (removeImage imageId imgs)
              \<and> filter isFeatured (removeImage imageId imgs) = [hd (removeImage imageId imgs)]
              \<and> removeImage imageId imgs =
                  (hd (filter (\<lambda>img. media_id img \<noteq> imageId) imgs))\<lparr>isFeatured := True\<rparr>
                  # tl (filter (\<lambda>img. media_id img \<noteq> imageId) imgs))"
  using assms removeImage_keeps_invariant setFeaturedImage_at_most_one removeImage_promotes
    only_first_exactly_one
  by blast

text \<open>
  Claim C8 at work: of three media items the first, featured, is removed; the second
  becomes the featured one.
\<close>

theorem featured_media_witness:
  "removeImage (js ''a'')
     [\<lparr>media_id = js ''a'', url = js ''u1'', media_file = None, isFeatured = True,
       mediaType = Image, videoId = None\<rparr>,
      \<lparr>media_id = js ''b'', url = js ''u2'', media_file = None, isFeatured = False,
       mediaType = Image, videoId = None\<rparr>,
      \<lparr>media_id = js ''c'', url = js ''u3'', media_file = None, isFeatured = False,
       mediaType = Video, videoId = Some (js ''dQw4w9WgXcQ'')\<rparr>]
   = [\<lparr>media_id = js ''b'', url = js ''u2'', media_file = None, isFeatured = True,
       mediaType = Image, videoId = None\<rparr>,
      \<lparr>media_id = js ''c'', url = js ''u3'', media_file = None, isFeatured = False,
       mediaType = Video, videoId = Some (js ''dQw4w9WgXcQ'')\<rparr>]
   \<and> only_first_featured
       (removeImage (js ''a'')
          [\<lparr>media_id = js ''a'', url = js ''u1'', media_file = None, isFeatured = True,
            mediaType = Image, videoId = None\<rparr>,
           \<lparr>media_id = js ''b'', url = js ''u2'', media_file = None, isFeatured = False,
            mediaType = Image, videoId = None\<rparr>,
           \<lparr>media_id = js ''c'', url = js ''u3'', media_file = None, isFeatured = False,
            mediaType = Video, videoId = Some (js ''dQw4w9WgXcQ'')\<rparr>])"
proof -
  let ?a = "\<lparr>media_id = js ''a'', url = js ''u1'', media_file = None, isFeatured = True,
             mediaType = Image, videoId = None\<rparr>"
  let ?b = "\<lparr>media_id = js ''b'', url = js ''u2'', media_file = None, isFeatured = False,
             mediaType = Image, videoId = None\<rparr>"
  let ?c = "\<lparr>media_id = js ''c'', url = js ''u3'', media_file = None, isFeatured = False,
             mediaType = Video, videoId = Some (js ''dQw4w9WgXcQ'')\<rparr>"
  have ids: "js ''a'' \<noteq> js ''b''" "js ''a'' \<noteq> js ''c''" "js ''b'' \<noteq> js ''c''"
    by (simp_all add: js_def)
  have inv: "at_most_one_featured [?a, ?b, ?c]"
    by (simp add: at_most_one_featured_def)
  have found: "\<exists>r. find (\<lambda>img. media_id img = js ''a'') [?a, ?b, ?c] = Some r \<and> isFeatured r"
    by simp
  have rem: "filter (\<lambda>img. media_id img \<noteq> js ''a'') [?a, ?b, ?c] = [?b, ?c]"
    using ids by auto
  have ne: "filter (\<lambda>img. media_id img \<noteq> js ''a'') [?a, ?b, ?c] \<noteq> []"
    unfolding rem by simp
  from featured_media[OF inv, of "js ''a''"] found ne
  have "only_first_featured (removeImage (js ''a'') [?a, ?b, ?c])
        \<and> removeImage (js ''a'') [?a, ?b, ?c] =
            (hd (filter (\<lambda>img. media_id img \<noteq> js ''a'') [?a, ?b, ?c]))\<lparr>isFeatured := True\<rparr>
            # tl (filter (\<lambda>img. media_id img \<noteq> js ''a'') [?a, ?b, ?c])"
    by blast
  then show ?thesis unfolding rem by (simp add: only_first_featured_def)
qed

section \<open>Users page\<close>

lemma startsWith_iff: "startsWith s p \<longleftrightarrow> (\<exists>post. s = p @ post)"
proof
  assume "startsWith s p"
  then have "s = p @ drop (length p) s"
    by (metis append_take_drop_id startsWith_def)
  then show "\<exists>post. s = p @ post" ..
next
  assume "\<exists>post. s = p @ post"
  then show "startsWith s p" by (auto simp: startsWith_def)
qed

lemma includes_str_iff: "includes_str s t \<longleftrightarrow> occurs_in t s"
proof (induction s)
  case Nil
  then show ?case by (auto simp: occurs_in_def)
next
  case (Cons c cs)
  show ?case
  proof
    assume "includes_str (c # cs) t"
    then consider "startsWith (c # cs) t" | "includes_str cs t" by auto
    then show "occurs_in t (c # cs)"
    proof cases
      case 1
      then obtain post where "c # cs = t @ post" by (auto simp: startsWith_iff)
      then have "c # cs = [] @ t @ post" by simp
      then show ?thesis unfolding occurs_in_def by blast
    next
      case 2
      with Cons.IH obtain pre post where "cs = pre @ t @ post" by (auto simp: occurs_in_def)
      then have "c # cs = (c # pre) @ t @ post" by simp
      then show ?thesis unfolding occurs_in_def by blast
    qed
  next
    assume "occurs_in t (c # cs)"
    then obtain pre post where eq: "c # cs = pre @ t @ post" by (auto simp: occurs_in_def)
    show "includes_str (c # cs) t"
    proof (cases pre)
      case Nil
      with eq have "startsWith (c # cs) t" by (auto simp: startsWith_iff)
      then show ?thesis by simp
    next
      case (Cons a pre')
      with eq have "cs = pre' @ t @ post" by simp
      then have "occurs_in t cs" unfolding occurs_in_def by blast
      with Cons.IH show ?thesis by simp
    qed
  qed
qed

lemma matchesSearch_iff:
  "matchesSearch lc t u \<longleftrightarrow>
     ci_substring lc t (name u) \<or> ci_substring lc t (email u)
     \<or> (\<exists>sl. slug u = Some sl \<and> sl \<noteq> [] \<and> ci_substring lc t sl)"
  by (auto simp: matchesSearch_def ci_substring_def includes_str_iff split: option.splits)

lemma filter_names: "js ''all'' \<noteq> js ''active''" "js ''all'' \<noteq> js ''blocked''" "js ''active'' \<noteq> js ''blocked''"
  by (simp_all add: js_def)

text \<open>
  Claim C9: for every user list and every search term, role filter, status filter and
  plan filter, the displayed list is the list of the users, in their order, that all
  the filters admit.
\<close>

theorem displayedUsers_filter:
  "displayedUsers lc users searchTerm roleFilter statusFilter planFilter =
     filter (admitted lc searchTerm roleFilter statusFilter planFilter) users"
proof -
  have "filter (admitted lc searchTerm roleFilter statusFilter planFilter) users =
        filter (\<lambda>u. plan_status u = planFilter \<or> planFilter = js ''all'')
          (filter (\<lambda>u. (statusFilter = js ''active'' \<longrightarrow> \<not> is_blocked u) \<and> (statusFilter = js ''blocked'' \<longrightarrow> is_blocked u))
            (filter (\<lambda>u. role u = roleFilter \<or> roleFilter = js ''all'')
              (filter (\<lambda>u. searchTerm = [] \<or> matchesSearch lc searchTerm u) users)))"
    by (auto simp: admitted_def matchesSearch_iff intro!: filter_cong)
  also have "\<dots> = displayedUsers lc users searchTerm roleFilter statusFilter planFilter"
    using filter_names by (auto simp: displayedUsers_def Let_def intro!: filter_cong)
  finally show ?thesis by simp
qed

text \<open>
  Claim C9 at work, with the ASCII \<open>toLowerCase\<close>: the search term AN and the status
  filter \<open>active\<close> keep Ana and drop Bruno (no match, blocked) and Joana (blocked).
\<close>

theorem displayedUsers_filter_witness:
  "displayedUsers lowerAscii
     [\<lparr>user_id = js ''u1'', name = js ''Ana'', email = js ''ana@x.io'', slug = Some (js ''ana''),
       role = js ''corretor'', is_blocked = False, plan_status = js ''active''\<rparr>,
      \<lparr>user_id = js ''u2'', name = js ''Bruno'', email = js ''bruno@x.io'', slug = None,
       role = js ''admin'', is_blocked = True, plan_status = js ''inactive''\<rparr>,
      \<lparr>user_id = js ''u3'', name = js ''Joana'', email = js ''jo@x.io'', slug = None,
       role = js ''corretor'', is_blocked = True, plan_status = js ''active''\<rparr>]
     (js ''AN'') (js ''all'') (js ''active'') (js ''all'')
   = [\<lparr>user_id = js ''u1'', name = js ''Ana'', email = js ''ana@x.io'', slug = Some (js ''ana''),
       role = js ''corretor'', is_blocked = False, plan_status = js ''active''\<rparr>]"
proof -
  let ?ana = "\<lparr>user_id = js ''u1'', name = js ''Ana'', email = js ''ana@x.io'',
               slug = Some (js ''ana''), role = js ''corretor'', is_blocked = False,
               plan_status = js ''active''\<rparr>"
  let ?bruno = "\<lparr>user_id = js ''u2'', name = js ''Bruno'', email = js ''bruno@x.io'',
                 slug = None, role = js ''admin'', is_blocked = True,
                 plan_status = js ''inactive''\<rparr>"
  let ?joana = "\<lparr>user_id = js ''u3'', name = js ''Joana'', email = js ''jo@x.io'',
                 slug = None, role = js ''corretor'', is_blocked = True,
                 plan_status = js ''active''\<rparr>"
  have "filter (admitted lowerAscii (js ''AN'') (js ''all'') (js ''active'') (js ''all''))
          [?ana, ?bruno, ?joana] = [?ana]"
    by (simp add: admitted_def ci_substring_def includes_str_iff[symmetric] lowerAscii_def
        js_def startsWith_def)
  with displayedUsers_filter[of lowerAscii "[?ana, ?bruno, ?joana]" "js ''AN''" "js ''all''"
      "js ''active''" "js ''all''"]
  show ?thesis by simp
qed

text \<open>
  Claim C10, as stated (when the remote update succeeds the flag of the targeted user
  is negated), fails: the handler writes the negation of its argument
  \<open>currentBlocked\<close> and does not read the flag. Called with \<open>currentBlocked = false\<close>
  for a user who is blocked, it reports success and leaves her blocked.
\<close>

theorem stale_flag_is_not_negated:
  "handleToggleBlock RemoteOk (js ''u1'') False
     [\<lparr>user_id = js ''u1'', name = js ''Ana'', email = js ''ana@x.io'', slug = Some (js ''ana''),
       role = js ''corretor'', is_blocked = True, plan_status = js ''active''\<rparr>]
   = ([\<lparr>user_id = js ''u1'', name = js ''Ana'', email = js ''ana@x.io'', slug = Some (js ''ana''),
        role = js ''corretor'', is_blocked = True, plan_status = js ''active''\<rparr>],
      SuccessBlocked)"
  by (simp add: handleToggleBlock_def)

lemma toggle_failure:
  "remote \<noteq> RemoteOk \<Longrightarrow> fst (handleToggleBlock remote userId currentBlocked users) = users"
  by (cases remote) (simp_all add: handleToggleBlock_def)

lemma toggle_success_length:
  "length (fst (handleToggleBlock RemoteOk userId currentBlocked users)) = length users"
  by (simp add: handleToggleBlock_def)

lemma toggle_success_nth:
  assumes "i < length users"
  shows "fst (handleToggleBlock RemoteOk userId currentBlocked users) ! i =
           (if user_id (users ! i) = userId
            then (users ! i)\<lparr>is_blocked := \<not> currentBlocked\<rparr>
            else users ! i)"
  using assms by (simp add: handleToggleBlock_def)

text \<open>
  Claim C10, amended: when the remote update of \<open>handleToggleBlock\<close> fails, the users
  are left as they were; when it succeeds, the list keeps its length, every user with
  another identifier is unchanged, and the targeted user is as before but for the
  flag \<open>is_blocked\<close>, which becomes the negation of the argument \<open>currentBlocked\<close>: it
  is negated when the argument is the flag the user has.
\<close>

theorem handleToggleBlock_frame:
  "(remote \<noteq> RemoteOk \<longrightarrow> fst (handleToggleBlock remote userId currentBlocked users) = users)
   \<and> (remote = RemoteOk \<longrightarrow>
        length (fst (handleToggleBlock remote userId currentBlocked users)) = length users
        \<and> (\<forall>i<length users.
              (user_id (users ! i) \<noteq> userId \<longrightarrow>
                 fst (handleToggleBlock remote userId currentBlocked users) ! i = users ! i)
            \<and> (user_id (users ! i) = userId \<longrightarrow>
                 fst (handleToggleBlock remote userId currentBlocked users) ! i =
                   (users ! i)\<lparr>is_blocked := \<not> currentBlocked\<rparr>
                 \<and> (is_blocked (users ! i) = currentBlocked \<longrightarrow>
                      is_blocked (fst (handleToggleBlock remote userId currentBlocked users) ! i)
                        = (\<not> is_blocked (users ! i))))))"
proof (cases "remote = RemoteOk")
  case True
  show ?thesis
    unfolding True using toggle_success_length[of userId currentBlocked users]
      toggle_success_nth[of _ users userId currentBlocked]
    by simp
next
  case False
  with toggle_failure[of remote userId currentBlocked users] show ?thesis by simp
qed

text \<open>
  The amended claim at work: toggling the first of two users blocks her and leaves the
  second as he is; when the remote update fails nothing changes.
\<close>

theorem handleToggleBlock_frame_witness:
  "fst (handleToggleBlock RemoteOk (js ''u1'') False
     [\<lparr>user_id = js ''u1'', name = js ''Ana'', email = js ''ana@x.io'', slug = Some (js ''ana''),
       role = js ''corretor'', is_blocked = False, plan_status = js ''active''\<rparr>,
      \<lparr>user_id = js ''u2'', name = js ''Bruno'', email = js ''bruno@x.io'', slug = None,
       role = js ''admin'', is_blocked = True, plan_status = js ''inactive''\<rparr>]) ! 0
   = \<lparr>user_id = js ''u1'', name = js ''Ana'', email = js ''ana@x.io'', slug = Some (js ''ana''),
      role = js ''corretor'', is_blocked = True, plan_status = js ''active''\<rparr>
   \<and> fst (handleToggleBlock RemoteOk (js ''u1'') False
     [\<lparr>user_id = js ''u1'', name = js ''Ana'', email = js ''ana@x.io'', slug = Some (js ''ana''),
       role = js ''corretor'', is_blocked = False, plan_status = js ''active''\<rparr>,
      \<lparr>user_id = js ''u2'', name = js ''Bruno'', email = js ''bruno@x.io'', slug = None,
       role = js ''admin'', is_blocked = True, plan_status = js ''inactive''\<rparr>]) ! 1
   = \<lparr>user_id = js ''u2'', name = js ''Bruno'', email = js ''bruno@x.io'', slug = None,
      role = js ''admin'', is_blocked = True, plan_status = js ''inactive''\<rparr>
   \<and> fst (handleToggleBlock RemoteError (js ''u1'') False
     [\<lparr>user_id = js ''u1'', name = js ''Ana'', email = js ''ana@x.io'', slug = Some (js ''ana''),
       role = js ''corretor'', is_blocked = False, plan_status = js ''active''\<rparr>,
      \<lparr>user_id = js ''u2'', name = js ''Bruno'', email = js ''bruno@x.io'', slug = None,
       role = js ''admin'', is_blocked = True, plan_status = js ''inactive''\<rparr>])
   = [\<lparr>user_id = js ''u1'', name = js ''Ana'', email = js ''ana@x.io'', slug = Some (js ''ana''),
       role = js ''corretor'', is_blocked = False, plan_status = js ''active''\<rparr>,
      \<lparr>user_id = js ''u2'', name = js ''Bruno'', email = js ''bruno@x.io'', slug = None,
       role = js ''admin'', is_blocked = True, plan_status = js ''inactive''\<rparr>]"
proof -
  let ?ana = "\<lparr>user_id = js ''u1'', name = js ''Ana'', email = js ''ana@x.io'',
               slug = Some (js ''ana''), role = js ''corretor'', is_blocked = False,
               plan_status = js ''active''\<rparr>"
  let ?bruno = "\<lparr>user_id = js ''u2'', name = js ''Bruno'', email = js ''bruno@x.io'',
                 slug = None, role = js ''admin'', is_blocked = True,
                 plan_status = js ''inactive''\<rparr>"
  let ?us = "[?ana, ?bruno]"
  have ids: "js ''u2'' \<noteq> js ''u1''" by (simp add: js_def)
  note ok = handleToggleBlock_frame[of RemoteOk "js ''u1''" False ?us]
  from ok have all: "\<forall>i<length ?us.
              (user_id (?us ! i) \<noteq> js ''u1'' \<longrightarrow>
                 fst (handleToggleBlock RemoteOk (js ''u1'') False ?us) ! i = ?us ! i)
            \<and> (user_id (?us ! i) = js ''u1'' \<longrightarrow>
                 fst (handleToggleBlock RemoteOk (js ''u1'') False ?us) ! i =
                   (?us ! i)\<lparr>is_blocked := \<not> False\<rparr>)"
    by blast
  from all[rule_format, of 0] have r0:
    "fst (handleToggleBlock RemoteOk (js ''u1'') False ?us) ! 0 = ?ana\<lparr>is_blocked := True\<rparr>"
    by simp
  from all[rule_format, of 1] ids have r1:
    "fst (handleToggleBlock RemoteOk (js ''u1'') False ?us) ! 1 = ?bruno"
    by simp
  from handleToggleBlock_frame[of RemoteError "js ''u1''" False ?us]
  have err: "fst (handleToggleBlock RemoteError (js ''u1'') False ?us) = ?us"
    by simp
  from r0 r1 err show ?thesis by simp
qed

end
